theory Spec2Isabelle
  imports Complex_Main
begin

section \<open>Custom-integrator programs\<close>

text \<open>
  Every integrator class of \<^verbatim>\<open>openmmtools/integrators.py\<close> is a constructor that declares
  variables and appends instructions to a program which the dynamics engine replays on each
  step call.  The constructor calls \<^verbatim>\<open>addGlobalVariable\<close>, \<^verbatim>\<open>addPerDofVariable\<close>,
  \<^verbatim>\<open>addComputePerDof\<close>, ... are modelled by the lists of an \<open>integrator\<close> record, in call
  order.  The expression strings handed to the engine are written as their parse trees
  (usual precedence, left-associative operators); an integer formatted into a string
  (\<^verbatim>\<open>{n_A}\<close>) is the numeric literal of that integer.
\<close>

type_synonym vec = "nat \<Rightarrow> real"

datatype expr =
    Var string
  | Number real
  | Neg expr
  | Add expr expr
  | Sub expr expr
  | Mul expr expr
  | Div expr expr
  | Sqrt expr
  | Exp expr
  | Step expr

datatype cond = NotEqual expr expr

datatype instr =
    UpdateContextState
  | ConstrainPositions
  | ConstrainVelocities
  | ComputePerDof string expr
  | ComputeGlobal string expr
  | ComputeSum string expr
  | BeginIfBlock cond
  | EndBlock

record integrator =
  step_size :: real
  global_vars :: "(string \<times> real) list"
  perdof_vars :: "(string \<times> real) list"
  program :: "instr list"

datatype error = AssertionError | KeyError

subsection \<open>MetropolisMonteCarloIntegrator\<close>

definition mc_update_velocities :: "instr list" where
  "mc_update_velocities =
     [ComputePerDof ''sigma_v'' (Sqrt (Div (Var ''kT'') (Var ''m''))),
      ComputePerDof ''v'' (Mul (Var ''sigma_v'') (Var ''gaussian'')),
      ConstrainVelocities]"

definition mc_store_old :: "instr list" where
  "mc_store_old =
     [ComputePerDof ''xold'' (Var ''x''),
      ComputeGlobal ''Eold'' (Var ''energy'')]"

definition mc_displace :: "instr list" where
  "mc_displace =
     [ComputePerDof ''x'' (Add (Var ''x'') (Mul (Var ''sigma_x'') (Var ''gaussian'')))]"

definition mc_accept_reject :: "instr list" where
  "mc_accept_reject =
     [ComputeGlobal ''accept''
        (Step (Sub (Exp (Div (Neg (Sub (Var ''energy'') (Var ''Eold''))) (Var ''kT'')))
                   (Var ''uniform''))),
      ComputePerDof ''x''
        (Add (Mul (Sub (Number 1) (Var ''accept'')) (Var ''xold''))
             (Mul (Var ''x'') (Var ''accept'')))]"

definition mc_statistics :: "instr list" where
  "mc_statistics =
     [ComputeGlobal ''naccept'' (Add (Var ''naccept'') (Var ''accept'')),
      ComputeGlobal ''ntrials'' (Add (Var ''ntrials'') (Number 1))]"

definition MetropolisMonteCarloIntegrator ::
  "real \<Rightarrow> real \<Rightarrow> real \<Rightarrow> real \<Rightarrow> error + integrator" where
  "MetropolisMonteCarloIntegrator kB temperature sigma timestep =
     (let kT = kB * temperature in
      Inr \<lparr> step_size = timestep,
            global_vars = [(''naccept'', 0), (''ntrials'', 0), (''kT'', kT),
                           (''Eold'', 0), (''Enew'', 0), (''accept'', 0)],
            perdof_vars = [(''sigma_x'', sigma), (''sigma_v'', 0), (''xold'', 0)],
            program = [UpdateContextState] @ mc_update_velocities @ mc_store_old
                      @ mc_displace @ mc_accept_reject @ mc_statistics \<rparr>)"

subsection \<open>HMCIntegrator\<close>

definition hmc_precompute :: "instr list" where
  "hmc_precompute = [ComputePerDof ''sigma'' (Sqrt (Div (Var ''kT'') (Var ''m'')))]"

definition hmc_draw_velocity :: "instr list" where
  "hmc_draw_velocity =
     [ComputePerDof ''v'' (Mul (Var ''sigma'') (Var ''gaussian'')),
      ConstrainVelocities]"

definition kinetic_sum :: instr where
  "kinetic_sum =
     ComputeSum ''ke'' (Mul (Mul (Mul (Number (1/2)) (Var ''m'')) (Var ''v'')) (Var ''v''))"

definition hmc_store_old :: "instr list" where
  "hmc_store_old =
     [kinetic_sum,
      ComputeGlobal ''Eold'' (Add (Var ''ke'') (Var ''energy'')),
      ComputePerDof ''xold'' (Var ''x'')]"

text \<open>The body of \<^verbatim>\<open>for step in range(nsteps)\<close>: one velocity Verlet step.\<close>

definition velocity_verlet :: "instr list" where
  "velocity_verlet =
     [ComputePerDof ''v''
        (Add (Var ''v'') (Div (Mul (Mul (Number (1/2)) (Var ''dt'')) (Var ''f'')) (Var ''m''))),
      ComputePerDof ''x'' (Add (Var ''x'') (Mul (Var ''dt'') (Var ''v''))),
      ComputePerDof ''x1'' (Var ''x''),
      ConstrainPositions,
      ComputePerDof ''v''
        (Add (Add (Var ''v'')
                  (Div (Mul (Mul (Number (1/2)) (Var ''dt'')) (Var ''f'')) (Var ''m'')))
             (Div (Sub (Var ''x'') (Var ''x1'')) (Var ''dt''))),
      ConstrainVelocities]"

definition new_energy :: "instr list" where
  "new_energy =
     [kinetic_sum,
      ComputeGlobal ''Enew'' (Add (Var ''ke'') (Var ''energy''))]"

definition metropolis_accept :: instr where
  "metropolis_accept =
     ComputeGlobal ''accept''
       (Step (Sub (Exp (Div (Neg (Sub (Var ''Enew'') (Var ''Eold''))) (Var ''kT'')))
                  (Var ''uniform'')))"

definition hmc_accept_reject :: "instr list" where
  "hmc_accept_reject =
     [metropolis_accept,
      ComputePerDof ''x''
        (Add (Mul (Var ''x'') (Var ''accept''))
             (Mul (Var ''xold'') (Sub (Number 1) (Var ''accept''))))]"

definition statistics :: "instr list" where
  "statistics =
     [ComputeGlobal ''naccept'' (Add (Var ''naccept'') (Var ''accept'')),
      ComputeGlobal ''ntrials'' (Add (Var ''ntrials'') (Number 1))]"

text \<open>
  \<^verbatim>\<open>range(nsteps)\<close> is empty for \<open>nsteps \<le> 0\<close>, so the loop body is emitted
  \<open>nat nsteps\<close> times.  The constructor has no raise.
\<close>

definition HMCIntegrator :: "real \<Rightarrow> real \<Rightarrow> int \<Rightarrow> real \<Rightarrow> error + integrator" where
  "HMCIntegrator kB temperature nsteps timestep =
     (let kT = kB * temperature in
      Inr \<lparr> step_size = timestep,
            global_vars = [(''naccept'', 0), (''ntrials'', 0), (''kT'', kT), (''ke'', 0),
                           (''Eold'', 0), (''Enew'', 0), (''accept'', 0)],
            perdof_vars = [(''sigma'', 0), (''xold'', 0), (''x1'', 0)],
            program = hmc_precompute @ [UpdateContextState] @ hmc_draw_velocity
                      @ hmc_store_old @ concat (replicate (nat nsteps) velocity_verlet)
                      @ new_energy @ hmc_accept_reject @ statistics \<rparr>)"

subsection \<open>GHMCIntegrator\<close>

definition velocity_randomization :: "instr list" where
  "velocity_randomization =
     [ComputePerDof ''v''
        (Add (Mul (Sqrt (Var ''b'')) (Var ''v''))
             (Mul (Mul (Sqrt (Sub (Number 1) (Var ''b''))) (Var ''sigma'')) (Var ''gaussian''))),
      ConstrainVelocities]"

definition ghmc_store_old :: "instr list" where
  "ghmc_store_old =
     [kinetic_sum,
      ComputeGlobal ''Eold'' (Add (Var ''ke'') (Var ''energy'')),
      ComputePerDof ''xold'' (Var ''x''),
      ComputePerDof ''vold'' (Var ''v'')]"

definition ghmc_velocity_verlet :: "instr list" where
  "ghmc_velocity_verlet =
     [ComputePerDof ''v''
        (Add (Var ''v'') (Div (Mul (Mul (Number (1/2)) (Var ''dt'')) (Var ''f'')) (Var ''m''))),
      ComputePerDof ''x'' (Add (Var ''x'') (Mul (Var ''v'') (Var ''dt''))),
      ComputePerDof ''x1'' (Var ''x''),
      ConstrainPositions,
      ComputePerDof ''v''
        (Add (Add (Var ''v'')
                  (Div (Mul (Mul (Number (1/2)) (Var ''dt'')) (Var ''f'')) (Var ''m'')))
             (Div (Sub (Var ''x'') (Var ''x1'')) (Var ''dt''))),
      ConstrainVelocities]"

definition ghmc_accept_reject :: "instr list" where
  "ghmc_accept_reject =
     [metropolis_accept,
      BeginIfBlock (NotEqual (Var ''accept'') (Number 1)),
      ComputePerDof ''x'' (Var ''xold''),
      ComputePerDof ''v'' (Neg (Var ''vold'')),
      EndBlock]"

definition GHMCIntegrator :: "real \<Rightarrow> real \<Rightarrow> real \<Rightarrow> real \<Rightarrow> error + integrator" where
  "GHMCIntegrator kB temperature collision_rate timestep =
     (let kT = kB * temperature; gamma = collision_rate in
      Inr \<lparr> step_size = timestep,
            global_vars = [(''kT'', kT), (''b'', exp (- gamma * timestep)), (''ke'', 0),
                           (''Eold'', 0), (''Enew'', 0), (''accept'', 0),
                           (''naccept'', 0), (''ntrials'', 0)],
            perdof_vars = [(''sigma'', 0), (''vold'', 0), (''xold'', 0), (''x1'', 0)],
            program = hmc_precompute @ velocity_randomization
                      @ [ConstrainPositions, ConstrainVelocities]
                      @ ghmc_store_old @ ghmc_velocity_verlet @ new_energy
                      @ ghmc_accept_reject @ velocity_randomization @ statistics \<rparr>)"

subsection \<open>LangevinSplittingIntegrator\<close>

text \<open>\<^verbatim>\<open>str.upper\<close> on the letters the scheme alphabet can be written with.\<close>

definition upper_char :: "char \<Rightarrow> char" where
  "upper_char c =
     (if (97::nat) \<le> of_char c \<and> of_char c \<le> (122::nat)
      then char_of (of_char c - (32::nat)) else c)"

definition upper :: "string \<Rightarrow> string" where
  "upper s = map upper_char s"

text \<open>\<^verbatim>\<open>sum([letter == c for letter in splitting])\<close>\<close>

definition count_letter :: "char \<Rightarrow> string \<Rightarrow> nat" where
  "count_letter c s = sum_list (map (\<lambda>letter. if letter = c then 1 else 0) s)"

definition update_equations :: "nat \<Rightarrow> nat \<Rightarrow> char \<rightharpoonup> string \<times> expr" where
  "update_equations n_A n_B =
     [CHR ''A'' \<mapsto> (''x'', Add (Var ''x'')
                         (Mul (Div (Var ''dt'') (Number (real n_A))) (Var ''v''))),
      CHR ''B'' \<mapsto> (''v'', Add (Var ''v'')
                         (Mul (Div (Var ''dt'') (Number (real n_B))) (Var ''f''))),
      CHR ''O'' \<mapsto> (''v'', Add (Mul (Var ''b'') (Var ''v''))
                         (Div (Mul (Sqrt (Mul (Var ''kT'')
                                           (Sub (Number 1) (Mul (Var ''b'') (Var ''b'')))))
                                   (Var ''gaussian''))
                              (Sqrt (Var ''m''))))]"

text \<open>
  \<^verbatim>\<open>kinetic_energy\<close> is bound only when a monitor is on; every use below stands under the
  same test.
\<close>

definition kinetic_energy :: expr where
  "kinetic_energy = Mul (Mul (Mul (Number (1/2)) (Var ''m'')) (Var ''v'')) (Var ''v'')"

definition compute_pre_step_energies :: "bool \<Rightarrow> bool \<Rightarrow> char \<Rightarrow> instr list" where
  "compute_pre_step_energies monitor_work monitor_heat step =
     (if monitor_work \<or> monitor_heat then
        (if step \<in> set ''OB'' then [ComputeSum ''old_ke'' kinetic_energy] else [])
        @ (if monitor_work \<and> step = CHR ''A''
           then [ComputeGlobal ''old_pe'' (Var ''energy'')] else [])
      else [])"

definition apply_constraints :: "bool \<Rightarrow> bool \<Rightarrow> char \<Rightarrow> instr list" where
  "apply_constraints position_constraints velocity_constraints step =
     (if position_constraints \<and> step = CHR ''A'' then [ConstrainPositions] else [])
     @ (if velocity_constraints \<and> step \<in> set ''OB'' then [ConstrainVelocities] else [])"

definition compute_post_step_energies :: "bool \<Rightarrow> bool \<Rightarrow> char \<Rightarrow> instr list" where
  "compute_post_step_energies monitor_work monitor_heat step =
     (if step = CHR ''O'' \<and> (monitor_work \<or> monitor_heat)
      then [ComputeSum ''new_ke'' kinetic_energy] else [])
     @ (if monitor_work then
          (if step = CHR ''A'' then [ComputeGlobal ''new_pe'' (Var ''energy'')] else [])
        else [])"

definition accumulate_heat_or_work :: "bool \<Rightarrow> bool \<Rightarrow> char \<Rightarrow> instr list" where
  "accumulate_heat_or_work monitor_work monitor_heat step =
     (if monitor_work then
        (if step = CHR ''A''
         then [ComputeGlobal ''shadow_work''
                 (Add (Var ''shadow_work'') (Sub (Var ''new_pe'') (Var ''old_pe'')))]
         else [])
        @ (if step = CHR ''B''
           then [ComputeGlobal ''shadow_work''
                   (Add (Var ''shadow_work'') (Sub (Var ''new_ke'') (Var ''old_ke'')))]
           else [])
      else [])
     @ (if monitor_heat then
          (if step = CHR ''O''
           then [ComputeGlobal ''heat''
                   (Add (Var ''heat'') (Sub (Var ''new_ke'') (Var ''old_ke'')))]
           else [])
        else [])"

text \<open>One pass of \<^verbatim>\<open>for step in splitting\<close>; a missing dictionary key raises.\<close>

definition splitting_step ::
  "bool \<Rightarrow> bool \<Rightarrow> bool \<Rightarrow> bool \<Rightarrow> (char \<rightharpoonup> string \<times> expr) \<Rightarrow> char \<Rightarrow> error + instr list" where
  "splitting_step monitor_work monitor_heat position_constraints velocity_constraints eqs step =
     (case eqs step of
        None \<Rightarrow> Inl KeyError
      | Some (var, e) \<Rightarrow>
          Inr (compute_pre_step_energies monitor_work monitor_heat step
               @ [ComputePerDof var e]
               @ apply_constraints position_constraints velocity_constraints step
               @ compute_post_step_energies monitor_work monitor_heat step
               @ accumulate_heat_or_work monitor_work monitor_heat step))"

fun splitting_loop ::
  "bool \<Rightarrow> bool \<Rightarrow> bool \<Rightarrow> bool \<Rightarrow> (char \<rightharpoonup> string \<times> expr) \<Rightarrow> string \<Rightarrow> error + instr list" where
  "splitting_loop mw mh pc vc eqs [] = Inr []"
| "splitting_loop mw mh pc vc eqs (step # rest) =
     (case splitting_step mw mh pc vc eqs step of
        Inl e \<Rightarrow> Inl e
      | Inr block \<Rightarrow>
          (case splitting_loop mw mh pc vc eqs rest of
             Inl e \<Rightarrow> Inl e
           | Inr prog \<Rightarrow> Inr (block @ prog)))"

definition bookkeeping_vars :: "bool \<Rightarrow> bool \<Rightarrow> (string \<times> real) list" where
  "bookkeeping_vars monitor_work monitor_heat =
     (if monitor_work \<or> monitor_heat then
        [(''old_ke'', 0), (''new_ke'', 0)]
        @ (if monitor_work then [(''shadow_work'', 0), (''old_pe'', 0), (''new_pe'', 0)] else [])
        @ (if monitor_heat then [(''heat'', 0)] else [])
      else [])"

definition LangevinSplittingIntegrator ::
  "real \<Rightarrow> string \<Rightarrow> real \<Rightarrow> real \<Rightarrow> real \<Rightarrow> bool \<Rightarrow> bool \<Rightarrow> bool \<Rightarrow> bool \<Rightarrow> error + integrator" where
  "LangevinSplittingIntegrator kB splitting temperature collision_rate timestep
       monitor_work monitor_heat position_constraints velocity_constraints =
     (let kT = kB * temperature;
          gamma = collision_rate;
          splitting = upper splitting
      in if set splitting \<noteq> set ''ABO'' then Inl AssertionError
         else
           let n_A = count_letter CHR ''A'' splitting;
               n_B = count_letter CHR ''B'' splitting;
               n_O = count_letter CHR ''O'' splitting
           in if n_O \<noteq> 1 then Inl AssertionError
              else
                (case splitting_loop monitor_work monitor_heat position_constraints
                        velocity_constraints (update_equations n_A n_B) splitting of
                   Inl e \<Rightarrow> Inl e
                 | Inr prog \<Rightarrow>
                     Inr \<lparr> step_size = timestep,
                           global_vars = [(''kT'', kT), (''b'', exp (- gamma * timestep))]
                                         @ bookkeeping_vars monitor_work monitor_heat,
                           perdof_vars = [],
                           program = prog \<rparr>))"

section \<open>Execution of a program by the dynamics engine\<close>

text \<open>
  The engine owns masses, the force field, the constraint solver and the random number
  generator; they are parameters here.  \<open>uniform env t i\<close> and \<open>gaussian env t i\<close> are the
  draws used by the \<open>t\<close>-th evaluated expression at degree of freedom \<open>i\<close> (one value per
  expression evaluation and per degree of freedom).  \<open>step(x)\<close> is the engine's step
  function: 0 if \<open>x < 0\<close>, 1 otherwise.  Values are real numbers: the rounding, overflow
  and NaN of the engine's floating-point numbers are not modelled.
\<close>

record engine =
  ndof :: nat
  mass :: vec
  potential :: "vec \<Rightarrow> real"
  force :: "vec \<Rightarrow> vec"
  constrain_positions :: "vec \<Rightarrow> vec"
  constrain_velocities :: "vec \<Rightarrow> vec \<Rightarrow> vec"
  update_context_state :: "vec \<times> vec \<Rightarrow> vec \<times> vec"
  uniform :: "nat \<Rightarrow> nat \<Rightarrow> real"
  gaussian :: "nat \<Rightarrow> nat \<Rightarrow> real"

record mstate =
  perdof :: "string \<Rightarrow> vec"
  globals :: "string \<Rightarrow> real"
  tick :: nat

definition lookup :: "engine \<Rightarrow> integrator \<Rightarrow> mstate \<Rightarrow> nat \<Rightarrow> string \<Rightarrow> real" where
  "lookup env ig s i n =
     (if n = ''x'' then perdof s ''x'' i
      else if n = ''v'' then perdof s ''v'' i
      else if n = ''m'' then mass env i
      else if n = ''f'' then force env (perdof s ''x'') i
      else if n = ''dt'' then step_size ig
      else if n = ''energy'' then potential env (perdof s ''x'')
      else if n = ''uniform'' then uniform env (tick s) i
      else if n = ''gaussian'' then gaussian env (tick s) i
      else if n \<in> set (map fst (perdof_vars ig)) then perdof s n i
      else globals s n)"

fun eval :: "engine \<Rightarrow> integrator \<Rightarrow> mstate \<Rightarrow> nat \<Rightarrow> expr \<Rightarrow> real" where
  "eval env ig s i (Var n) = lookup env ig s i n"
| "eval env ig s i (Number c) = c"
| "eval env ig s i (Neg a) = - eval env ig s i a"
| "eval env ig s i (Add a b) = eval env ig s i a + eval env ig s i b"
| "eval env ig s i (Sub a b) = eval env ig s i a - eval env ig s i b"
| "eval env ig s i (Mul a b) = eval env ig s i a * eval env ig s i b"
| "eval env ig s i (Div a b) = eval env ig s i a / eval env ig s i b"
| "eval env ig s i (Sqrt a) = sqrt (eval env ig s i a)"
| "eval env ig s i (Exp a) = exp (eval env ig s i a)"
| "eval env ig s i (Step a) = (if eval env ig s i a < 0 then 0 else 1)"

fun holds :: "engine \<Rightarrow> integrator \<Rightarrow> mstate \<Rightarrow> cond \<Rightarrow> bool" where
  "holds env ig s (NotEqual a b) = (eval env ig s 0 a \<noteq> eval env ig s 0 b)"

fun apply_instr :: "engine \<Rightarrow> integrator \<Rightarrow> instr \<Rightarrow> mstate \<Rightarrow> mstate" where
  "apply_instr env ig UpdateContextState s =
     s\<lparr>perdof := (perdof s)
          (''x'' := fst (update_context_state env (perdof s ''x'', perdof s ''v'')),
           ''v'' := snd (update_context_state env (perdof s ''x'', perdof s ''v'')))\<rparr>"
| "apply_instr env ig ConstrainPositions s =
     s\<lparr>perdof := (perdof s)(''x'' := constrain_positions env (perdof s ''x''))\<rparr>"
| "apply_instr env ig ConstrainVelocities s =
     s\<lparr>perdof := (perdof s)
          (''v'' := constrain_velocities env (perdof s ''x'') (perdof s ''v''))\<rparr>"
| "apply_instr env ig (ComputePerDof n e) s =
     s\<lparr>perdof := (perdof s)(n := (\<lambda>i. eval env ig s i e)), tick := Suc (tick s)\<rparr>"
| "apply_instr env ig (ComputeGlobal n e) s =
     s\<lparr>globals := (globals s)(n := eval env ig s 0 e), tick := Suc (tick s)\<rparr>"
| "apply_instr env ig (ComputeSum n e) s =
     s\<lparr>globals := (globals s)(n := (\<Sum>i<ndof env. eval env ig s i e)),
       tick := Suc (tick s)\<rparr>"
| "apply_instr env ig (BeginIfBlock c) s = s\<lparr>tick := Suc (tick s)\<rparr>"
| "apply_instr env ig EndBlock s = s"

text \<open>
  The first component counts the if-blocks being skipped: 0 while instructions execute.
\<close>

fun exec_instr :: "engine \<Rightarrow> integrator \<Rightarrow> instr \<Rightarrow> nat \<times> mstate \<Rightarrow> nat \<times> mstate" where
  "exec_instr env ig (BeginIfBlock c) (0, s) =
     (if holds env ig s c then 0 else Suc 0, apply_instr env ig (BeginIfBlock c) s)"
| "exec_instr env ig (BeginIfBlock c) (Suc k, s) = (Suc (Suc k), s)"
| "exec_instr env ig EndBlock (k, s) = (k - 1, s)"
| "exec_instr env ig ins (0, s) = (0, apply_instr env ig ins s)"
| "exec_instr env ig ins (Suc k, s) = (Suc k, s)"

definition exec :: "engine \<Rightarrow> integrator \<Rightarrow> instr list \<Rightarrow> nat \<times> mstate \<Rightarrow> nat \<times> mstate" where
  "exec env ig prog = fold (exec_instr env ig) prog"

text \<open>The state after the engine has run the instructions \<open>prog\<close> from the top level.\<close>

definition after :: "engine \<Rightarrow> integrator \<Rightarrow> instr list \<Rightarrow> mstate \<Rightarrow> mstate" where
  "after env ig prog s = snd (exec env ig prog (0, s))"

text \<open>One step call: the whole program.\<close>

definition step_call :: "engine \<Rightarrow> integrator \<Rightarrow> mstate \<Rightarrow> mstate" where
  "step_call env ig s = after env ig (program ig) s"

text \<open>The state a fresh context starts from: declared initial values, given \<open>x\<close> and \<open>v\<close>.\<close>

definition initial_state :: "integrator \<Rightarrow> vec \<Rightarrow> vec \<Rightarrow> mstate" where
  "initial_state ig x0 v0 =
     \<lparr> perdof = (\<lambda>n. case map_of (perdof_vars ig) n of
                        Some c \<Rightarrow> (\<lambda>i. c) | None \<Rightarrow> (\<lambda>i. 0))
                (''x'' := x0, ''v'' := v0),
       globals = (\<lambda>n. case map_of (global_vars ig) n of Some c \<Rightarrow> c | None \<Rightarrow> 0),
       tick = 0 \<rparr>"

subsection \<open>Phases of a Metropolized trial\<close>

text \<open>
  The prefixes of the three Metropolized programs, named after the trial phases: up to the
  stored old position and energy (snapshot), and up to the instruction before the
  accept/reject step (proposal).
\<close>

definition mc_snapshot :: "instr list" where
  "mc_snapshot = [UpdateContextState] @ mc_update_velocities @ mc_store_old"

definition mc_proposal :: "instr list" where
  "mc_proposal = mc_snapshot @ mc_displace"

definition hmc_snapshot :: "instr list" where
  "hmc_snapshot = hmc_precompute @ [UpdateContextState] @ hmc_draw_velocity @ hmc_store_old"

definition hmc_proposal :: "nat \<Rightarrow> instr list" where
  "hmc_proposal n = hmc_snapshot @ concat (replicate n velocity_verlet) @ new_energy"

definition ghmc_snapshot :: "instr list" where
  "ghmc_snapshot = hmc_precompute @ velocity_randomization
                   @ [ConstrainPositions, ConstrainVelocities] @ ghmc_store_old"

definition ghmc_proposal :: "instr list" where
  "ghmc_proposal = ghmc_snapshot @ ghmc_velocity_verlet @ new_energy"

text \<open>Kinetic plus potential energy of the engine's current positions and velocities.\<close>

definition total_energy :: "engine \<Rightarrow> mstate \<Rightarrow> real" where
  "total_energy env s =
     (\<Sum>i<ndof env. 1/2 * mass env i * perdof s ''v'' i * perdof s ''v'' i)
     + potential env (perdof s ''x'')"

subsection \<open>What an instruction writes\<close>

fun global_target :: "instr \<Rightarrow> string option" where
  "global_target (ComputeGlobal n e) = Some n"
| "global_target (ComputeSum n e) = Some n"
| "global_target ins = None"

fun perdof_targets :: "instr \<Rightarrow> string list" where
  "perdof_targets (ComputePerDof n e) = [n]"
| "perdof_targets UpdateContextState = [''x'', ''v'']"
| "perdof_targets ConstrainPositions = [''x'']"
| "perdof_targets ConstrainVelocities = [''v'']"
| "perdof_targets ins = []"

fun opens_block :: "instr \<Rightarrow> bool" where
  "opens_block (BeginIfBlock c) = True"
| "opens_block ins = False"

subsection \<open>Reading a program\<close>

text \<open>The state updates of a program: its per-DOF assignments, in order.\<close>

definition per_dof_updates :: "instr list \<Rightarrow> instr list" where
  "per_dof_updates prog =
     filter (\<lambda>ins. case ins of ComputePerDof var e \<Rightarrow> True | _ \<Rightarrow> False) prog"

definition update_instr :: "nat \<Rightarrow> nat \<Rightarrow> char \<Rightarrow> instr list" where
  "update_instr n_A n_B c =
     (case update_equations n_A n_B c of
        None \<Rightarrow> [] | Some (var, e) \<Rightarrow> [ComputePerDof var e])"

section \<open>Test systems\<close>

text \<open>
  A single particle on a spring, one degree of freedom, no constraints: the harmonic
  oscillator the repository's tests run the integrators on.  The random draws are given.
\<close>

definition harmonic_oscillator ::
  "real \<Rightarrow> real \<Rightarrow> (nat \<Rightarrow> nat \<Rightarrow> real) \<Rightarrow> (nat \<Rightarrow> nat \<Rightarrow> real) \<Rightarrow> engine" where
  "harmonic_oscillator K m us gs =
     \<lparr> ndof = 1,
       mass = (\<lambda>i. m),
       potential = (\<lambda>x. K / 2 * (x 0 * x 0)),
       force = (\<lambda>x i. - K * x i),
       constrain_positions = (\<lambda>x. x),
       constrain_velocities = (\<lambda>x v. v),
       update_context_state = (\<lambda>xv. xv),
       uniform = us,
       gaussian = gs \<rparr>"

text \<open>
  Two particles of unit mass on a line, each on a spring to the origin, held at distance 1
  by a rigid bond: positions are projected about their midpoint and both velocities to
  their mean.
\<close>

definition rigid_dimer ::
  "real \<Rightarrow> (nat \<Rightarrow> nat \<Rightarrow> real) \<Rightarrow> (nat \<Rightarrow> nat \<Rightarrow> real) \<Rightarrow> engine" where
  "rigid_dimer K us gs =
     \<lparr> ndof = 2,
       mass = (\<lambda>i. 1),
       potential = (\<lambda>x. K / 2 * (x 0 * x 0 + x 1 * x 1)),
       force = (\<lambda>x i. - K * x i),
       constrain_positions = (\<lambda>x i. (x 0 + x 1) / 2 + (real i - 1/2)),
       constrain_velocities = (\<lambda>x v i. (v 0 + v 1) / 2),
       update_context_state = (\<lambda>xv. xv),
       uniform = us,
       gaussian = gs \<rparr>"

section \<open>Construction of the HMC program\<close>

lemma count_concat_replicate:
  "count_list (concat (replicate n xs)) a = n * count_list xs a"
  by (induction n) simp_all

lemmas hmc_sections =
  hmc_precompute_def hmc_draw_velocity_def hmc_store_old_def velocity_verlet_def
  new_energy_def hmc_accept_reject_def statistics_def

text \<open>
  C9 (as stated): constructing an HMCIntegrator with \<open>nsteps \<le> 0\<close> fails.  The constructor
  has no check of \<open>nsteps\<close>: with \<open>nsteps = 0\<close> or \<open>nsteps = -3\<close> it returns an integrator
  whose program is the 13 instructions around an empty inner loop.
\<close>

theorem hmc_nonpositive_nsteps_counterexample:
  "HMCIntegrator 1 298 0 1 \<noteq> Inl AssertionError \<and> HMCIntegrator 1 298 0 1 \<noteq> Inl KeyError
   \<and> isl (HMCIntegrator 1 298 (-3) 1) = False
   \<and> length (program (projr (HMCIntegrator 1 298 (-3) 1))) = 13"
  by (simp add: HMCIntegrator_def hmc_sections)

text \<open>
  C9 (amended): construction of an HMCIntegrator succeeds for every integer \<open>nsteps\<close>; the
  program holds the velocity Verlet sub-program exactly \<open>nsteps\<close> times when \<open>nsteps\<close> is
  positive and not at all when \<open>nsteps \<le> 0\<close> (each repetition carries the program's only
  position-constraint instruction, so these are counted).
\<close>

theorem hmc_construction:
  "\<exists>ig. HMCIntegrator kB temperature nsteps timestep = Inr ig
     \<and> program ig = hmc_precompute @ [UpdateContextState] @ hmc_draw_velocity @ hmc_store_old
          @ concat (replicate (nat nsteps) velocity_verlet)
          @ new_energy @ hmc_accept_reject @ statistics
     \<and> count_list (program ig) ConstrainPositions = nat nsteps
     \<and> (nsteps \<le> 0 \<longrightarrow> program ig = hmc_precompute @ [UpdateContextState] @ hmc_draw_velocity
            @ hmc_store_old @ new_energy @ hmc_accept_reject @ statistics)"
  by (simp add: HMCIntegrator_def count_concat_replicate hmc_sections
      kinetic_sum_def metropolis_accept_def)

theorem hmc_construction_witness:
  "program (projr (HMCIntegrator 1 298 (-3) 1)) =
     hmc_precompute @ [UpdateContextState] @ hmc_draw_velocity @ hmc_store_old
     @ new_energy @ hmc_accept_reject @ statistics
   \<and> count_list (program (projr (HMCIntegrator 1 298 10 1))) ConstrainPositions = 10"
  using hmc_construction [of 1 298 "-3" 1] hmc_construction [of 1 298 10 1]
  by auto

section \<open>Construction of the Langevin splitting program\<close>

lemma upper_char_simps:
  "upper_char CHR ''a'' = CHR ''A''" "upper_char CHR ''b'' = CHR ''B''" "upper_char CHR ''o'' = CHR ''O''"
  "upper_char CHR ''A'' = CHR ''A''" "upper_char CHR ''B'' = CHR ''B''" "upper_char CHR ''O'' = CHR ''O''"
  "upper_char CHR ''X'' = CHR ''X''"
  by code_simp+

lemmas splitting_blocks =
  compute_pre_step_energies_def apply_constraints_def compute_post_step_energies_def
  accumulate_heat_or_work_def

lemma ABO_set: "set ''ABO'' = {CHR ''A'', CHR ''B'', CHR ''O''}"
  by auto

lemma splitting_step_ok:
  "c \<in> set ''ABO'' \<Longrightarrow>
     \<exists>block. splitting_step mw mh pc vc (update_equations a b) c = Inr block
       \<and> per_dof_updates block = update_instr a b c
       \<and> count_list block (ComputePerDof ''x''
            (Add (Var ''x'') (Mul (Div (Var ''dt'') (Number (real a))) (Var ''v''))))
          = (if c = CHR ''A'' then 1 else 0)
       \<and> count_list block (ComputePerDof ''v''
            (Add (Var ''v'') (Mul (Div (Var ''dt'') (Number (real b))) (Var ''f''))))
          = (if c = CHR ''B'' then 1 else 0)"
  by (auto simp: splitting_step_def update_equations_def update_instr_def per_dof_updates_def
      splitting_blocks kinetic_energy_def)

lemma splitting_loop_ok:
  "set s \<subseteq> set ''ABO'' \<Longrightarrow>
     \<exists>prog. splitting_loop mw mh pc vc (update_equations a b) s = Inr prog
       \<and> per_dof_updates prog = concat (map (update_instr a b) s)
       \<and> count_list prog (ComputePerDof ''x''
            (Add (Var ''x'') (Mul (Div (Var ''dt'') (Number (real a))) (Var ''v''))))
          = count_letter CHR ''A'' s
       \<and> count_list prog (ComputePerDof ''v''
            (Add (Var ''v'') (Mul (Div (Var ''dt'') (Number (real b))) (Var ''f''))))
          = count_letter CHR ''B'' s"
proof (induction s)
  case Nil
  show ?case by (simp add: per_dof_updates_def count_letter_def)
next
  case (Cons c s)
  from Cons.prems have c: "c \<in> set ''ABO''" and s: "set s \<subseteq> set ''ABO''" by auto
  from splitting_step_ok [OF c, of mw mh pc vc a b] obtain block where
    b: "splitting_step mw mh pc vc (update_equations a b) c = Inr block"
       "per_dof_updates block = update_instr a b c"
       "count_list block (ComputePerDof ''x''
            (Add (Var ''x'') (Mul (Div (Var ''dt'') (Number (real a))) (Var ''v''))))
          = (if c = CHR ''A'' then 1 else 0)"
       "count_list block (ComputePerDof ''v''
            (Add (Var ''v'') (Mul (Div (Var ''dt'') (Number (real b))) (Var ''f''))))
          = (if c = CHR ''B'' then 1 else 0)" by blast
  from Cons.IH [OF s] obtain prog where
    p: "splitting_loop mw mh pc vc (update_equations a b) s = Inr prog"
       "per_dof_updates prog = concat (map (update_instr a b) s)"
       "count_list prog (ComputePerDof ''x''
            (Add (Var ''x'') (Mul (Div (Var ''dt'') (Number (real a))) (Var ''v''))))
          = count_letter CHR ''A'' s"
       "count_list prog (ComputePerDof ''v''
            (Add (Var ''v'') (Mul (Div (Var ''dt'') (Number (real b))) (Var ''f''))))
          = count_letter CHR ''B'' s" by blast
  have "per_dof_updates (block @ prog) = concat (map (update_instr a b) (c # s))"
    using b(2) p(2) by (simp add: per_dof_updates_def)
  moreover have "count_list (block @ prog) (ComputePerDof ''x''
            (Add (Var ''x'') (Mul (Div (Var ''dt'') (Number (real a))) (Var ''v''))))
          = count_letter CHR ''A'' (c # s)"
    using b(3) p(3) by (simp add: count_letter_def)
  moreover have "count_list (block @ prog) (ComputePerDof ''v''
            (Add (Var ''v'') (Mul (Div (Var ''dt'') (Number (real b))) (Var ''f''))))
          = count_letter CHR ''B'' (c # s)"
    using b(4) p(4) by (simp add: count_letter_def)
  ultimately show ?case using b(1) p(1) by simp
qed

lemma count_letter_pos: "c \<in> set s \<Longrightarrow> 1 \<le> count_letter c s"
  by (induction s) (auto simp: count_letter_def)

lemma langevin_unfold:
  "LangevinSplittingIntegrator kB splitting temperature collision_rate timestep mw mh pc vc =
     (if set (upper splitting) \<noteq> set ''ABO'' then Inl AssertionError
      else if count_letter CHR ''O'' (upper splitting) \<noteq> 1 then Inl AssertionError
      else (case splitting_loop mw mh pc vc
                   (update_equations (count_letter CHR ''A'' (upper splitting))
                      (count_letter CHR ''B'' (upper splitting))) (upper splitting) of
              Inl e \<Rightarrow> Inl e
            | Inr prog \<Rightarrow>
                Inr \<lparr> step_size = timestep,
                      global_vars = [(''kT'', kB * temperature),
                                     (''b'', exp (- collision_rate * timestep))]
                                    @ bookkeeping_vars mw mh,
                      perdof_vars = [],
                      program = prog \<rparr>))"
  unfolding LangevinSplittingIntegrator_def Let_def by (rule refl)

lemma guard2:
  "(if c1 then Inl a else if c2 then Inl a else X) = Inr ig \<Longrightarrow> \<not> c1 \<and> \<not> c2 \<and> X = Inr ig"
  by (simp split: if_splits)

lemma sum_case_Inr:
  "(case x of Inl e \<Rightarrow> Inl e | Inr p \<Rightarrow> Inr (f p)) = Inr ig \<Longrightarrow> \<exists>p. x = Inr p \<and> ig = f p"
  by (cases x) auto

lemma langevin_Inr:
  assumes r: "LangevinSplittingIntegrator kB splitting temperature collision_rate timestep
             mw mh pc vc = Inr ig"
  shows "set (upper splitting) = set ''ABO''"
    and "count_letter CHR ''O'' (upper splitting) = 1"
    and "step_size ig = timestep"
    and "perdof_vars ig = []"
    and "splitting_loop mw mh pc vc
           (update_equations (count_letter CHR ''A'' (upper splitting))
              (count_letter CHR ''B'' (upper splitting))) (upper splitting) = Inr (program ig)"
proof -
  note g = guard2 [OF r [unfolded langevin_unfold]]
  from g show "set (upper splitting) = set ''ABO''" by blast
  from g show "count_letter CHR ''O'' (upper splitting) = 1" by blast
  from g have "(case splitting_loop mw mh pc vc
           (update_equations (count_letter CHR ''A'' (upper splitting))
              (count_letter CHR ''B'' (upper splitting))) (upper splitting) of
              Inl e \<Rightarrow> Inl e
            | Inr prog \<Rightarrow>
                Inr ((\<lambda>p. \<lparr> step_size = timestep,
                      global_vars = [(''kT'', kB * temperature),
                                     (''b'', exp (- collision_rate * timestep))]
                                    @ bookkeeping_vars mw mh,
                      perdof_vars = [],
                      program = p \<rparr>) prog)) = Inr ig" by blast
  from sum_case_Inr [OF this] obtain p where
    p: "splitting_loop mw mh pc vc
           (update_equations (count_letter CHR ''A'' (upper splitting))
              (count_letter CHR ''B'' (upper splitting))) (upper splitting) = Inr p"
    and ig: "ig = \<lparr> step_size = timestep,
                      global_vars = [(''kT'', kB * temperature),
                                     (''b'', exp (- collision_rate * timestep))]
                                    @ bookkeeping_vars mw mh,
                      perdof_vars = [],
                      program = p \<rparr>" by blast
  from ig show "step_size ig = timestep" by simp
  from ig show "perdof_vars ig = []" by simp
  from ig have "program ig = p" by simp
  with p show "splitting_loop mw mh pc vc
           (update_equations (count_letter CHR ''A'' (upper splitting))
              (count_letter CHR ''B'' (upper splitting))) (upper splitting) = Inr (program ig)"
    by simp
qed

lemma guard2_fail:
  "c1 \<or> c2 \<Longrightarrow> (if c1 then Inl a else if c2 then Inl a else X) = Inl a"
  by auto

lemma guard2_pass:
  "\<not> c1 \<Longrightarrow> \<not> c2 \<Longrightarrow> (if c1 then Inl a else if c2 then Inl a else X) = X"
  by simp

lemma langevin_invalid:
  assumes "\<not> (set (upper splitting) = set ''ABO'' \<and> count_letter CHR ''O'' (upper splitting) = 1)"
  shows "LangevinSplittingIntegrator kB splitting temperature collision_rate timestep
       mw mh pc vc = Inl AssertionError"
proof -
  from assms have "set (upper splitting) \<noteq> set ''ABO'' \<or> count_letter CHR ''O'' (upper splitting) \<noteq> 1"
    by blast
  then show ?thesis unfolding langevin_unfold by (rule guard2_fail)
qed

lemma langevin_valid:
  assumes "set (upper splitting) = set ''ABO''" "count_letter CHR ''O'' (upper splitting) = 1"
  shows "\<exists>ig. LangevinSplittingIntegrator kB splitting temperature collision_rate timestep
             mw mh pc vc = Inr ig"
proof -
  from assms(1) have "set (upper splitting) \<subseteq> set ''ABO''" by blast
  from splitting_loop_ok [OF this, of mw mh pc vc "count_letter CHR ''A'' (upper splitting)"
      "count_letter CHR ''B'' (upper splitting)"] obtain prog where
    p: "splitting_loop mw mh pc vc
       (update_equations (count_letter CHR ''A'' (upper splitting))
          (count_letter CHR ''B'' (upper splitting))) (upper splitting) = Inr prog" by blast
  from assms have n: "\<not> set (upper splitting) \<noteq> set ''ABO''"
     "\<not> count_letter CHR ''O'' (upper splitting) \<noteq> 1" by blast+
  show ?thesis
    unfolding langevin_unfold guard2_pass [OF n] p by simp
qed

lemma length_updates:
  "set xs \<subseteq> set ''ABO'' \<Longrightarrow> length (concat (map (update_instr a b) xs)) = length xs"
  by (induction xs) (auto simp: update_instr_def update_equations_def)

lemma upper_examples:
  "upper ''baoab'' = ''BAOAB''" "upper ''BAOAB'' = ''BAOAB''" "upper ''ABOO'' = ''ABOO''"
  "upper ''AB'' = ''AB''" "upper ''ABOX'' = ''ABOX''"
  by (simp_all add: upper_def upper_char_simps)

lemma BAOAB_valid:
  "set ''BAOAB'' = set ''ABO''" "count_letter CHR ''O'' ''BAOAB'' = 1"
  "count_letter CHR ''A'' ''BAOAB'' = 2" "count_letter CHR ''B'' ''BAOAB'' = 2"
  by (auto simp: count_letter_def)

text \<open>
  C4: construction of a LangevinSplittingIntegrator succeeds exactly for the splitting
  strings whose upper-cased letters are the set A, B, O with a single O; every other string
  (a letter missing, a foreign symbol, more than one O) makes it fail with the assertion
  error.  On success the state updates of the program are those of the upper-cased symbols,
  one per symbol, in the order of the string.
\<close>

theorem splitting_validation:
  "let r = LangevinSplittingIntegrator kB splitting temperature collision_rate timestep
             monitor_work monitor_heat position_constraints velocity_constraints;
       sp = upper splitting;
       valid = (set sp = {CHR ''A'', CHR ''B'', CHR ''O''} \<and> count_letter CHR ''O'' sp = 1)
   in (valid \<longrightarrow>
         (\<exists>ig. r = Inr ig
            \<and> per_dof_updates (program ig)
                = concat (map (update_instr (count_letter CHR ''A'' sp)
                                 (count_letter CHR ''B'' sp)) sp)
            \<and> length (per_dof_updates (program ig)) = length splitting))
      \<and> (\<not> valid \<longrightarrow> r = Inl AssertionError)
      \<and> ((\<exists>c \<in> {CHR ''A'', CHR ''B'', CHR ''O''}. c \<notin> set sp) \<longrightarrow> r = Inl AssertionError)
      \<and> ((\<exists>c \<in> set sp. c \<notin> {CHR ''A'', CHR ''B'', CHR ''O''}) \<longrightarrow> r = Inl AssertionError)
      \<and> (1 < count_letter CHR ''O'' sp \<longrightarrow> r = Inl AssertionError)"
proof -
  let ?sp = "upper splitting"
  let ?r = "LangevinSplittingIntegrator kB splitting temperature collision_rate timestep
             monitor_work monitor_heat position_constraints velocity_constraints"
  let ?valid = "set ?sp = {CHR ''A'', CHR ''B'', CHR ''O''} \<and> count_letter CHR ''O'' ?sp = 1"
  have inv: "\<not> ?valid \<Longrightarrow> ?r = Inl AssertionError"
    using langevin_invalid [of splitting] unfolding ABO_set by blast
  have ok: "\<exists>ig. ?r = Inr ig
            \<and> per_dof_updates (program ig)
                = concat (map (update_instr (count_letter CHR ''A'' ?sp)
                                 (count_letter CHR ''B'' ?sp)) ?sp)
            \<and> length (per_dof_updates (program ig)) = length splitting" if v: ?valid
  proof -
    from v have s: "set ?sp = set ''ABO''" and o: "count_letter CHR ''O'' ?sp = 1"
      unfolding ABO_set by auto
    from langevin_valid [OF s o] obtain ig where ig: "?r = Inr ig" by blast
    from s have sub: "set ?sp \<subseteq> set ''ABO''" by blast
    from splitting_loop_ok [OF sub, of monitor_work monitor_heat position_constraints
        velocity_constraints "count_letter CHR ''A'' ?sp" "count_letter CHR ''B'' ?sp"]
    obtain prog where
      pr: "splitting_loop monitor_work monitor_heat position_constraints velocity_constraints
             (update_equations (count_letter CHR ''A'' ?sp) (count_letter CHR ''B'' ?sp)) ?sp
           = Inr prog"
          "per_dof_updates prog
             = concat (map (update_instr (count_letter CHR ''A'' ?sp)
                              (count_letter CHR ''B'' ?sp)) ?sp)"
      by blast
    from pr(1) langevin_Inr(5) [OF ig] have "prog = program ig" by simp
    with pr(2) have p: "per_dof_updates (program ig)
                = concat (map (update_instr (count_letter CHR ''A'' ?sp)
                                 (count_letter CHR ''B'' ?sp)) ?sp)"
      by simp
    from length_updates [OF sub] p have "length (per_dof_updates (program ig)) = length ?sp"
      by simp
    with ig p show ?thesis by (simp add: upper_def)
  qed
  have a: "(\<exists>c \<in> {CHR ''A'', CHR ''B'', CHR ''O''}. c \<notin> set ?sp) \<Longrightarrow> \<not> ?valid"
    by blast
  have b: "(\<exists>c \<in> set ?sp. c \<notin> {CHR ''A'', CHR ''B'', CHR ''O''}) \<Longrightarrow> \<not> ?valid"
    by blast
  have c: "1 < count_letter CHR ''O'' ?sp \<Longrightarrow> \<not> ?valid"
    by simp
  show ?thesis
    unfolding Let_def
  proof (intro conjI impI)
    assume ?valid then show "\<exists>ig. ?r = Inr ig
            \<and> per_dof_updates (program ig)
                = concat (map (update_instr (count_letter CHR ''A'' ?sp)
                                 (count_letter CHR ''B'' ?sp)) ?sp)
            \<and> length (per_dof_updates (program ig)) = length splitting" by (rule ok)
  next
    assume "\<not> ?valid" then show "?r = Inl AssertionError" by (rule inv)
  next
    assume "\<exists>c \<in> {CHR ''A'', CHR ''B'', CHR ''O''}. c \<notin> set ?sp"
    then show "?r = Inl AssertionError" using a inv by blast
  next
    assume "\<exists>c \<in> set ?sp. c \<notin> {CHR ''A'', CHR ''B'', CHR ''O''}"
    then show "?r = Inl AssertionError" using b inv by blast
  next
    assume "1 < count_letter CHR ''O'' ?sp"
    then show "?r = Inl AssertionError" using c inv by blast
  qed
qed


theorem splitting_validation_witness:
  "isl (LangevinSplittingIntegrator 1 ''baoab'' 298 91 1 False False True True) = False
   \<and> length (per_dof_updates
        (program (projr (LangevinSplittingIntegrator 1 ''baoab'' 298 91 1 False False True True))))
       = 5
   \<and> LangevinSplittingIntegrator 1 ''ABOO'' 298 91 1 False False True True = Inl AssertionError
   \<and> LangevinSplittingIntegrator 1 ''AB'' 298 91 1 False False True True = Inl AssertionError
   \<and> LangevinSplittingIntegrator 1 ''ABOX'' 298 91 1 False False True True = Inl AssertionError"
proof -
  have v1: "set ''BAOAB'' = {CHR ''A'', CHR ''B'', CHR ''O''} \<and> count_letter CHR ''O'' ''BAOAB'' = 1"
    by (auto simp: count_letter_def)
  note t1 = splitting_validation [of 1 "''baoab''" 298 91 1 False False True True,
      unfolded Let_def upper_examples, THEN conjunct1, THEN mp, OF v1]
  then obtain ig where
    ig: "LangevinSplittingIntegrator 1 ''baoab'' 298 91 1 False False True True = Inr ig"
        "length (per_dof_updates (program ig)) = length ''baoab''"
    by (elim exE conjE)
  have c1: "isl (LangevinSplittingIntegrator 1 ''baoab'' 298 91 1 False False True True) = False"
    unfolding ig(1) by simp
  have c1': "length (per_dof_updates
        (program (projr (LangevinSplittingIntegrator 1 ''baoab'' 298 91 1 False False True True))))
       = 5"
    unfolding ig(1) using ig(2) by simp
  have v2: "1 < count_letter CHR ''O'' ''ABOO''" by (simp add: count_letter_def)
  note c2 = splitting_validation [of 1 "''ABOO''" 298 91 1 False False True True,
      unfolded Let_def upper_examples, THEN conjunct2, THEN conjunct2, THEN conjunct2,
      THEN conjunct2, THEN mp, OF v2]
  have v3: "\<exists>c \<in> {CHR ''A'', CHR ''B'', CHR ''O''}. c \<notin> set ''AB''" by simp
  note c3 = splitting_validation [of 1 "''AB''" 298 91 1 False False True True,
      unfolded Let_def upper_examples, THEN conjunct2, THEN conjunct2, THEN conjunct1,
      THEN mp, OF v3]
  have v4: "\<exists>c \<in> set ''ABOX''. c \<notin> {CHR ''A'', CHR ''B'', CHR ''O''}" by simp
  note c4 = splitting_validation [of 1 "''ABOX''" 298 91 1 False False True True,
      unfolded Let_def upper_examples, THEN conjunct2, THEN conjunct2, THEN conjunct2,
      THEN conjunct1, THEN mp, OF v4]
  show ?thesis
    by (intro conjI) (rule c1 c1' c2 c3 c4)+
qed

text \<open>
  C6: for a successfully constructed LangevinSplittingIntegrator there are \<open>n_A \<ge> 1\<close> drift
  and \<open>n_B \<ge> 1\<close> kick symbols; every drift update adds \<open>(dt / n_A) * v\<close> to the position and
  every kick update adds \<open>(dt / n_B) * f\<close> to the velocity; the weight \<open>dt / n_A\<close> summed over
  all drift updates of the program is \<open>dt\<close>, and likewise \<open>dt / n_B\<close> over all kick updates
  (real arithmetic).
\<close>

theorem substep_weights:
  assumes r: "LangevinSplittingIntegrator kB splitting temperature collision_rate timestep
                monitor_work monitor_heat position_constraints velocity_constraints = Inr ig"
  shows "let n_A = count_letter CHR ''A'' (upper splitting);
             n_B = count_letter CHR ''B'' (upper splitting)
         in 1 \<le> n_A \<and> 1 \<le> n_B
            \<and> (\<exists>eA eB. update_equations n_A n_B CHR ''A'' = Some (''x'', eA)
                  \<and> update_equations n_A n_B CHR ''B'' = Some (''v'', eB)
                  \<and> (\<forall>env s i. eval env ig s i eA
                         = perdof s ''x'' i + (timestep / real n_A) * perdof s ''v'' i)
                  \<and> (\<forall>env s i. eval env ig s i eB
                         = perdof s ''v'' i
                           + (timestep / real n_B) * force env (perdof s ''x'') i)
                  \<and> real (count_list (program ig) (ComputePerDof ''x'' eA))
                       * (timestep / real n_A) = timestep
                  \<and> real (count_list (program ig) (ComputePerDof ''v'' eB))
                       * (timestep / real n_B) = timestep)"
proof -
  let ?sp = "upper splitting"
  let ?a = "count_letter CHR ''A'' ?sp" and ?b = "count_letter CHR ''B'' ?sp"
  let ?eA = "Add (Var ''x'') (Mul (Div (Var ''dt'') (Number (real ?a))) (Var ''v''))"
  let ?eB = "Add (Var ''v'') (Mul (Div (Var ''dt'') (Number (real ?b))) (Var ''f''))"
  note s = langevin_Inr(1) [OF r]
  have "CHR ''A'' \<in> set ''ABO''" "CHR ''B'' \<in> set ''ABO''" by simp_all
  with s have "CHR ''A'' \<in> set ?sp" "CHR ''B'' \<in> set ?sp" by simp_all
  then have pos: "1 \<le> ?a" "1 \<le> ?b" by (simp_all only: count_letter_pos)
  from s have sub: "set ?sp \<subseteq> set ''ABO''" by blast
  from splitting_loop_ok [OF sub, of monitor_work monitor_heat position_constraints
        velocity_constraints ?a ?b]
  obtain prog where
    pr: "splitting_loop monitor_work monitor_heat position_constraints velocity_constraints
           (update_equations ?a ?b) ?sp = Inr prog"
        "count_list prog (ComputePerDof ''x'' ?eA) = ?a"
        "count_list prog (ComputePerDof ''v'' ?eB) = ?b"
    by blast
  from pr(1) langevin_Inr(5) [OF r] have "prog = program ig" by simp
  with pr have cnt: "count_list (program ig) (ComputePerDof ''x'' ?eA) = ?a"
        "count_list (program ig) (ComputePerDof ''v'' ?eB) = ?b" by simp_all
  have ue: "update_equations ?a ?b CHR ''A'' = Some (''x'', ?eA)"
           "update_equations ?a ?b CHR ''B'' = Some (''v'', ?eB)"
    by (simp_all add: update_equations_def)
  have evA: "eval env ig s i ?eA = perdof s ''x'' i + (timestep / real ?a) * perdof s ''v'' i"
    for env s i
    by (simp add: lookup_def langevin_Inr(3) [OF r])
  have evB: "eval env ig s i ?eB
               = perdof s ''v'' i + (timestep / real ?b) * force env (perdof s ''x'') i"
    for env s i
    by (simp add: lookup_def langevin_Inr(3) [OF r])
  from pos have sums: "real ?a * (timestep / real ?a) = timestep"
     "real ?b * (timestep / real ?b) = timestep" by simp_all
  show ?thesis
    unfolding Let_def
    apply (intro conjI)
      apply (rule pos(1))
     apply (rule pos(2))
    apply (rule exI [of _ ?eA], rule exI [of _ ?eB])
    apply (intro conjI allI)
         apply (rule ue(1))
        apply (rule ue(2))
       apply (rule evA)
      apply (rule evB)
     apply (simp only: cnt sums)
    apply (simp only: cnt sums)
    done
qed


theorem substep_weights_witness:
  "\<exists>ig eA eB. LangevinSplittingIntegrator 1 ''BAOAB'' 298 91 1 False False True True = Inr ig
      \<and> real (count_list (program ig) (ComputePerDof ''x'' eA)) * (1 / 2) = 1
      \<and> real (count_list (program ig) (ComputePerDof ''v'' eB)) * (1 / 2) = 1"
proof -
  from langevin_valid [of "''BAOAB''" 1 298 91 1 False False True True, unfolded upper_examples,
      OF BAOAB_valid(1,2)]
  obtain ig where
    ig: "LangevinSplittingIntegrator 1 ''BAOAB'' 298 91 1 False False True True = Inr ig" ..
  note w = substep_weights [OF ig, unfolded Let_def upper_examples BAOAB_valid(3,4),
      THEN conjunct2, THEN conjunct2]
  then obtain eA eB where
    "real (count_list (program ig) (ComputePerDof ''x'' eA)) * (1 / real 2) = 1"
    "real (count_list (program ig) (ComputePerDof ''v'' eB)) * (1 / real 2) = 1"
    by (elim exE conjE)
  with ig show ?thesis by auto
qed

text \<open>
  C1: the kick update is claimed to be \<open>v + (dt / n_B) * f / m\<close>.  The program emitted for
  \<^verbatim>\<open>BAOAB\<close> starts with the kick \<open>v + (dt / 2) * f\<close>: on a particle of mass 2 at rest under
  force 1 with \<open>dt = 1\<close> it yields velocity \<open>1/2\<close>, where the claimed update yields \<open>1/4\<close>.
\<close>

theorem kick_update_omits_mass:
  "\<exists>ig e. LangevinSplittingIntegrator 1 ''BAOAB'' 298 91 1 False False True True = Inr ig
      \<and> hd (program ig) = ComputePerDof ''v'' e
      \<and> eval (harmonic_oscillator 1 2 (\<lambda>t i. 0) (\<lambda>t i. 0)) ig
           (initial_state ig (\<lambda>i. - 1) (\<lambda>i. 0)) 0 e = 1 / 2
      \<and> perdof (initial_state ig (\<lambda>i. - 1) (\<lambda>i. 0)) ''v'' 0
          + (step_size ig / 2)
            * force (harmonic_oscillator 1 2 (\<lambda>t i. 0) (\<lambda>t i. 0))
                (perdof (initial_state ig (\<lambda>i. - 1) (\<lambda>i. 0)) ''x'') 0
            / mass (harmonic_oscillator 1 2 (\<lambda>t i. 0) (\<lambda>t i. 0)) 0 = 1 / 4"
proof -
  from langevin_valid [of "''BAOAB''" 1 298 91 1 False False True True, unfolded upper_examples,
      OF BAOAB_valid(1,2)]
  obtain ig where
    ig: "LangevinSplittingIntegrator 1 ''BAOAB'' 298 91 1 False False True True = Inr ig" ..
  note f = langevin_Inr(3,4) [OF ig]
  note l = langevin_Inr(5) [OF ig, unfolded upper_examples BAOAB_valid(3,4)]
  have h: "hd (program ig)
             = ComputePerDof ''v''
                 (Add (Var ''v'') (Mul (Div (Var ''dt'') (Number 2)) (Var ''f'')))"
    using l [symmetric] by (simp add: splitting_step_def update_equations_def splitting_blocks)
  have e: "eval (harmonic_oscillator 1 2 (\<lambda>t i. 0) (\<lambda>t i. 0)) ig
           (initial_state ig (\<lambda>i. - 1) (\<lambda>i. 0)) 0
           (Add (Var ''v'') (Mul (Div (Var ''dt'') (Number 2)) (Var ''f''))) = 1 / 2"
    by (simp add: lookup_def f harmonic_oscillator_def initial_state_def)
  have c: "perdof (initial_state ig (\<lambda>i. - 1) (\<lambda>i. 0)) ''v'' 0
          + (step_size ig / 2)
            * force (harmonic_oscillator 1 2 (\<lambda>t i. 0) (\<lambda>t i. 0))
                (perdof (initial_state ig (\<lambda>i. - 1) (\<lambda>i. 0)) ''x'') 0
            / mass (harmonic_oscillator 1 2 (\<lambda>t i. 0) (\<lambda>t i. 0)) 0 = 1 / 4"
    by (simp add: f harmonic_oscillator_def initial_state_def)
  from ig h e c show ?thesis by blast
qed

section \<open>Running the Metropolized programs\<close>

lemma exec_append: "exec env ig (xs @ ys) st = exec env ig ys (exec env ig xs st)"
  by (simp add: exec_def)

lemma exec_Nil: "exec env ig [] st = st"
  by (simp add: exec_def)

lemma exec_Cons: "exec env ig (x # xs) st = exec env ig xs (exec_instr env ig x st)"
  by (simp add: exec_def)

lemma exec_instr_depth0:
  "\<not> opens_block ins \<Longrightarrow> fst (exec_instr env ig ins (0, s)) = 0"
  by (cases ins) simp_all

lemma exec_depth0:
  "\<forall>ins \<in> set xs. \<not> opens_block ins \<Longrightarrow> fst (exec env ig xs (0, s)) = 0"
proof (induction xs arbitrary: s)
  case Nil
  show ?case by (simp add: exec_Nil)
next
  case (Cons x xs)
  then have "fst (exec_instr env ig x (0, s)) = 0" by (simp add: exec_instr_depth0)
  then obtain s' where s': "exec_instr env ig x (0, s) = (0, s')" by (cases "exec_instr env ig x (0, s)") auto
  from Cons show ?case by (simp add: exec_Cons s')
qed

lemma exec_straight:
  assumes "\<forall>ins \<in> set xs. \<not> opens_block ins"
  shows "exec env ig xs (0, s) = (0, after env ig xs s)"
proof -
  from exec_depth0 [OF assms] have "fst (exec env ig xs (0, s)) = 0" .
  then show ?thesis
    unfolding after_def by (cases "exec env ig xs (0, s)") simp
qed

lemma after_append:
  assumes "\<forall>ins \<in> set xs. \<not> opens_block ins"
  shows "after env ig (xs @ ys) s = after env ig ys (after env ig xs s)"
proof -
  have "after env ig (xs @ ys) s = snd (exec env ig ys (exec env ig xs (0, s)))"
    unfolding after_def exec_append ..
  also have "\<dots> = snd (exec env ig ys (0, after env ig xs s))"
    unfolding exec_straight [OF assms] ..
  finally show ?thesis unfolding after_def .
qed

lemma exec_instr_globals_frame:
  "global_target ins \<noteq> Some n \<Longrightarrow> globals (snd (exec_instr env ig ins (k, s))) n = globals s n"
  by (cases ins; cases k) simp_all

lemma exec_globals_frame:
  "\<forall>ins \<in> set xs. global_target ins \<noteq> Some n \<Longrightarrow>
     globals (snd (exec env ig xs st)) n = globals (snd st) n"
proof (induction xs arbitrary: st)
  case Nil
  show ?case by (simp add: exec_Nil)
next
  case (Cons x xs)
  obtain k s where st: "st = (k, s)" by (cases st)
  from Cons.prems have "global_target x \<noteq> Some n" by simp
  from exec_instr_globals_frame [OF this, of env ig k s]
  have "globals (snd (exec_instr env ig x st)) n = globals (snd st) n" by (simp add: st)
  moreover from Cons have "globals (snd (exec env ig xs (exec_instr env ig x st))) n
      = globals (snd (exec_instr env ig x st)) n" by simp
  ultimately show ?case by (simp add: exec_Cons)
qed

lemma after_globals_frame:
  "\<forall>ins \<in> set xs. global_target ins \<noteq> Some n \<Longrightarrow>
     globals (after env ig xs s) n = globals s n"
  using exec_globals_frame [of xs n env ig "(0, s)"] by (simp add: after_def)

lemma exec_instr_perdof_frame:
  "n \<notin> set (perdof_targets ins) \<Longrightarrow> perdof (snd (exec_instr env ig ins (k, s))) n = perdof s n"
  by (cases ins; cases k) auto

lemma exec_perdof_frame:
  "\<forall>ins \<in> set xs. n \<notin> set (perdof_targets ins) \<Longrightarrow>
     perdof (snd (exec env ig xs st)) n = perdof (snd st) n"
proof (induction xs arbitrary: st)
  case Nil
  show ?case by (simp add: exec_Nil)
next
  case (Cons x xs)
  obtain k s where st: "st = (k, s)" by (cases st)
  from Cons.prems have "n \<notin> set (perdof_targets x)" by simp
  from exec_instr_perdof_frame [OF this, of env ig k s]
  have "perdof (snd (exec_instr env ig x st)) n = perdof (snd st) n" by (simp add: st)
  moreover from Cons have "perdof (snd (exec env ig xs (exec_instr env ig x st))) n
      = perdof (snd (exec_instr env ig x st)) n" by simp
  ultimately show ?case by (simp add: exec_Cons)
qed

lemma after_perdof_frame:
  "\<forall>ins \<in> set xs. n \<notin> set (perdof_targets ins) \<Longrightarrow>
     perdof (after env ig xs s) n = perdof s n"
  using exec_perdof_frame [of xs n env ig "(0, s)"] by (simp add: after_def)

lemmas run_simps = after_def exec_Cons exec_Nil lookup_def

text \<open>The closing instructions of HMC: accept, blend, statistics.\<close>

lemma hmc_tail:
  assumes "perdof_vars ig = [(''sigma'', 0), (''xold'', 0), (''x1'', 0)]"
  shows "globals (after env ig (hmc_accept_reject @ statistics) s) ''ntrials''
           = globals s ''ntrials'' + 1"
    and "globals (after env ig (hmc_accept_reject @ statistics) s) ''accept''
           = (if uniform env (tick s) 0
                   \<le> exp (- (globals s ''Enew'' - globals s ''Eold'') / globals s ''kT'')
              then 1 else 0)"
    and "globals (after env ig (hmc_accept_reject @ statistics) s) ''naccept''
           = globals s ''naccept'' + globals (after env ig (hmc_accept_reject @ statistics) s) ''accept''"
  using assms
  by (simp_all add: hmc_accept_reject_def statistics_def metropolis_accept_def run_simps)


lemma mc_tail:
  assumes "perdof_vars ig = [(''sigma_x'', sg), (''sigma_v'', 0), (''xold'', 0)]"
  shows "globals (after env ig (mc_accept_reject @ mc_statistics) s) ''ntrials''
           = globals s ''ntrials'' + 1"
    and "globals (after env ig (mc_accept_reject @ mc_statistics) s) ''accept''
           = (if uniform env (tick s) 0
                   \<le> exp (- (potential env (perdof s ''x'') - globals s ''Eold'') / globals s ''kT'')
              then 1 else 0)"
    and "globals (after env ig (mc_accept_reject @ mc_statistics) s) ''naccept''
           = globals s ''naccept'' + globals (after env ig (mc_accept_reject @ mc_statistics) s) ''accept''"
  using assms
  by (simp_all add: mc_accept_reject_def mc_statistics_def run_simps)

lemma ghmc_tail:
  assumes "perdof_vars ig = [(''sigma'', 0), (''vold'', 0), (''xold'', 0), (''x1'', 0)]"
  shows "globals (after env ig (ghmc_accept_reject @ velocity_randomization @ statistics) s)
            ''ntrials'' = globals s ''ntrials'' + 1"
    and "globals (after env ig (ghmc_accept_reject @ velocity_randomization @ statistics) s)
            ''accept''
           = (if uniform env (tick s) 0
                   \<le> exp (- (globals s ''Enew'' - globals s ''Eold'') / globals s ''kT'')
              then 1 else 0)"
    and "globals (after env ig (ghmc_accept_reject @ velocity_randomization @ statistics) s)
            ''naccept''
           = globals s ''naccept''
             + globals (after env ig (ghmc_accept_reject @ velocity_randomization @ statistics) s)
                 ''accept''"
  using assms
  by (simp_all add: ghmc_accept_reject_def velocity_randomization_def statistics_def
        metropolis_accept_def run_simps)

lemma mc_proposal_straight: "\<forall>ins \<in> set mc_proposal. \<not> opens_block ins"
  by (simp add: mc_proposal_def mc_snapshot_def mc_update_velocities_def mc_store_old_def mc_displace_def)

lemma hmc_proposal_straight: "\<forall>ins \<in> set (hmc_proposal n). \<not> opens_block ins"
  by (auto simp: hmc_proposal_def hmc_snapshot_def hmc_sections kinetic_sum_def)

lemma ghmc_proposal_straight: "\<forall>ins \<in> set ghmc_proposal. \<not> opens_block ins"
  by (simp add: ghmc_proposal_def ghmc_snapshot_def hmc_sections kinetic_sum_def
      velocity_randomization_def ghmc_store_old_def ghmc_velocity_verlet_def)

lemma proposal_keeps_counters:
  "n \<in> {''ntrials'', ''naccept''} \<Longrightarrow> \<forall>ins \<in> set mc_proposal. global_target ins \<noteq> Some n"
  "n \<in> {''ntrials'', ''naccept''} \<Longrightarrow> \<forall>ins \<in> set (hmc_proposal k). global_target ins \<noteq> Some n"
  "n \<in> {''ntrials'', ''naccept''} \<Longrightarrow> \<forall>ins \<in> set ghmc_proposal. global_target ins \<noteq> Some n"
  by (auto simp: mc_proposal_def mc_snapshot_def mc_update_velocities_def mc_store_old_def mc_displace_def
      hmc_proposal_def hmc_snapshot_def hmc_sections kinetic_sum_def
      ghmc_proposal_def ghmc_snapshot_def velocity_randomization_def ghmc_store_old_def
      ghmc_velocity_verlet_def)


lemma mc_built:
  assumes "MetropolisMonteCarloIntegrator kB temperature sigma timestep = Inr ig"
  shows "program ig = mc_proposal @ mc_accept_reject @ mc_statistics"
    and "perdof_vars ig = [(''sigma_x'', sigma), (''sigma_v'', 0), (''xold'', 0)]"
    and "step_size ig = timestep"
    and "global_vars ig = [(''naccept'', 0), (''ntrials'', 0), (''kT'', kB * temperature),
                           (''Eold'', 0), (''Enew'', 0), (''accept'', 0)]"
  using assms by (auto simp: MetropolisMonteCarloIntegrator_def mc_proposal_def mc_snapshot_def)

lemma hmc_built:
  assumes "HMCIntegrator kB temperature nsteps timestep = Inr ig"
  shows "program ig = hmc_proposal (nat nsteps) @ hmc_accept_reject @ statistics"
    and "perdof_vars ig = [(''sigma'', 0), (''xold'', 0), (''x1'', 0)]"
    and "step_size ig = timestep"
    and "global_vars ig = [(''naccept'', 0), (''ntrials'', 0), (''kT'', kB * temperature),
                           (''ke'', 0), (''Eold'', 0), (''Enew'', 0), (''accept'', 0)]"
  using assms by (auto simp: HMCIntegrator_def hmc_proposal_def hmc_snapshot_def)

lemma ghmc_built:
  assumes "GHMCIntegrator kB temperature collision_rate timestep = Inr ig"
  shows "program ig = ghmc_proposal @ ghmc_accept_reject @ velocity_randomization @ statistics"
    and "perdof_vars ig = [(''sigma'', 0), (''vold'', 0), (''xold'', 0), (''x1'', 0)]"
    and "step_size ig = timestep"
    and "global_vars ig = [(''kT'', kB * temperature), (''b'', exp (- collision_rate * timestep)),
                           (''ke'', 0), (''Eold'', 0), (''Enew'', 0), (''accept'', 0),
                           (''naccept'', 0), (''ntrials'', 0)]"
  using assms by (auto simp: GHMCIntegrator_def ghmc_proposal_def ghmc_snapshot_def)

lemma trial_counters:
  assumes "MetropolisMonteCarloIntegrator kB temperature sigma timestep = Inr ig
           \<or> HMCIntegrator kB temperature nsteps timestep = Inr ig
           \<or> GHMCIntegrator kB temperature collision_rate timestep = Inr ig"
  shows "globals (step_call env ig s) ''ntrials'' = globals s ''ntrials'' + 1"
    and "globals (step_call env ig s) ''naccept''
           = globals s ''naccept'' + globals (step_call env ig s) ''accept''"
    and "globals (step_call env ig s) ''accept'' = 0 \<or> globals (step_call env ig s) ''accept'' = 1"
proof -
  have "globals (step_call env ig s) ''ntrials'' = globals s ''ntrials'' + 1
      \<and> globals (step_call env ig s) ''naccept''
           = globals s ''naccept'' + globals (step_call env ig s) ''accept''
      \<and> (globals (step_call env ig s) ''accept'' = 0 \<or> globals (step_call env ig s) ''accept'' = 1)"
    using assms
  proof (elim disjE)
    assume b: "MetropolisMonteCarloIntegrator kB temperature sigma timestep = Inr ig"
    let ?s1 = "after env ig mc_proposal s"
    have sc: "step_call env ig s = after env ig (mc_accept_reject @ mc_statistics) ?s1"
      unfolding step_call_def mc_built(1) [OF b] by (rule after_append [OF mc_proposal_straight])
    have fr: "globals ?s1 ''ntrials'' = globals s ''ntrials''"
             "globals ?s1 ''naccept'' = globals s ''naccept''"
      by (rule after_globals_frame, rule proposal_keeps_counters, simp)+
    note t = mc_tail [OF mc_built(2) [OF b], of env ?s1, folded sc, unfolded fr]
    show ?thesis
      by (intro conjI) (rule t(1), rule t(3), simp add: t(2))
  next
    assume b: "HMCIntegrator kB temperature nsteps timestep = Inr ig"
    let ?s1 = "after env ig (hmc_proposal (nat nsteps)) s"
    have sc: "step_call env ig s = after env ig (hmc_accept_reject @ statistics) ?s1"
      unfolding step_call_def hmc_built(1) [OF b] by (rule after_append [OF hmc_proposal_straight])
    have fr: "globals ?s1 ''ntrials'' = globals s ''ntrials''"
             "globals ?s1 ''naccept'' = globals s ''naccept''"
      by (rule after_globals_frame, rule proposal_keeps_counters, simp)+
    note t = hmc_tail [OF hmc_built(2) [OF b], of env ?s1, folded sc, unfolded fr]
    show ?thesis
      by (intro conjI) (rule t(1), rule t(3), simp add: t(2))
  next
    assume b: "GHMCIntegrator kB temperature collision_rate timestep = Inr ig"
    let ?s1 = "after env ig ghmc_proposal s"
    have sc: "step_call env ig s
               = after env ig (ghmc_accept_reject @ velocity_randomization @ statistics) ?s1"
      unfolding step_call_def ghmc_built(1) [OF b]
      by (rule after_append [OF ghmc_proposal_straight])
    have fr: "globals ?s1 ''ntrials'' = globals s ''ntrials''"
             "globals ?s1 ''naccept'' = globals s ''naccept''"
      by (rule after_globals_frame, rule proposal_keeps_counters, simp)+
    note t = ghmc_tail [OF ghmc_built(2) [OF b], of env ?s1, folded sc, unfolded fr]
    show ?thesis
      by (intro conjI) (rule t(1), rule t(3), simp add: t(2))
  qed
  then show "globals (step_call env ig s) ''ntrials'' = globals s ''ntrials'' + 1"
    and "globals (step_call env ig s) ''naccept''
           = globals s ''naccept'' + globals (step_call env ig s) ''accept''"
    and "globals (step_call env ig s) ''accept'' = 0 \<or> globals (step_call env ig s) ''accept'' = 1"
    by blast+
qed

lemma initial_counters:
  assumes "MetropolisMonteCarloIntegrator kB temperature sigma timestep = Inr ig
           \<or> HMCIntegrator kB temperature nsteps timestep = Inr ig
           \<or> GHMCIntegrator kB temperature collision_rate timestep = Inr ig"
  shows "globals (initial_state ig x0 v0) ''ntrials'' = 0"
    and "globals (initial_state ig x0 v0) ''naccept'' = 0"
  using assms mc_built(4) [of kB temperature sigma timestep ig]
    hmc_built(4) [of kB temperature nsteps timestep ig]
    ghmc_built(4) [of kB temperature collision_rate timestep ig]
  by (auto simp: initial_state_def)

lemmas program_sections =
  mc_proposal_def mc_snapshot_def mc_update_velocities_def mc_store_old_def mc_displace_def
  mc_accept_reject_def mc_statistics_def
  hmc_proposal_def hmc_snapshot_def hmc_sections kinetic_sum_def metropolis_accept_def
  ghmc_proposal_def ghmc_snapshot_def velocity_randomization_def ghmc_store_old_def
  ghmc_velocity_verlet_def ghmc_accept_reject_def

lemma projr_Inr: "r = Inr (projr r) \<longleftrightarrow> \<not> isl r"
  by (cases r) auto

lemma built_examples:
  "MetropolisMonteCarloIntegrator kB temperature sigma timestep
     = Inr (projr (MetropolisMonteCarloIntegrator kB temperature sigma timestep))"
  "HMCIntegrator kB temperature nsteps timestep
     = Inr (projr (HMCIntegrator kB temperature nsteps timestep))"
  "GHMCIntegrator kB temperature collision_rate timestep
     = Inr (projr (GHMCIntegrator kB temperature collision_rate timestep))"
  by (simp_all add: MetropolisMonteCarloIntegrator_def HMCIntegrator_def GHMCIntegrator_def)

subsection \<open>Example trials\<close>

text \<open>
  Trials run instruction by instruction on the test systems: a rejected GHMC trial of the
  bonded pair and of the free oscillator (a step too long for the spring), and an accepted
  one.
\<close>

lemma exp_small: "exp (- (3645/16)) < (1/2::real)"
proof -
  have "1 + 3645/16 \<le> exp (3645/16::real)" by (rule exp_ge_add_one_self)
  then have "(2::real) < exp (3645/16)" by simp
  then have "inverse (exp (3645/16::real)) < inverse 2"
    by (simp add: field_simps)
  then show ?thesis by (simp add: exp_minus)
qed

lemma exp_small': "exp (- (3645/16)) * 2 < (1::real)"
  using exp_small by simp

lemma dimer_trial:
  assumes "perdof_vars ig = [(''sigma'', 0), (''vold'', 0), (''xold'', 0), (''x1'', 0)]"
    "step_size ig = 1"
    "global_vars ig = [(''kT'', 1), (''b'', 1/4),
                       (''ke'', 0), (''Eold'', 0), (''Enew'', 0), (''accept'', 0),
                       (''naccept'', 0), (''ntrials'', 0)]"
    "program ig = ghmc_proposal @ ghmc_accept_reject @ velocity_randomization @ statistics"
  defines "env \<equiv> rigid_dimer 9 (\<lambda>t i. 1/2) (\<lambda>t i. if t = 16 then 1 - 2 * real i else 0)"
  defines "s \<equiv> initial_state ig (\<lambda>i. real i + 1/2) (\<lambda>i. 0)"
  shows "perdof (after env ig ghmc_snapshot s) ''v'' 0 = 0"
    and "perdof (after env ig ghmc_snapshot s) ''x'' 0 = 1/2"
    and "globals (after env ig ghmc_proposal s) ''Eold'' = 45/4"
    and "globals (after env ig ghmc_proposal s) ''Enew'' = 3825/16"
    and "globals (after env ig (ghmc_proposal @ [metropolis_accept]) s) ''accept'' = 0"
    and "perdof (after env ig (ghmc_proposal @ ghmc_accept_reject) s) ''x'' 0 = 1/2"
    and "perdof (after env ig (ghmc_proposal @ ghmc_accept_reject) s) ''v'' 0 = 0"
    and "tick (after env ig (ghmc_proposal @ ghmc_accept_reject) s) = 16"
    and "perdof (step_call env ig s) ''v'' 0 = 0"
    and "perdof (after env ig ghmc_snapshot s) ''v'' = (\<lambda>i. 0)"
  using assms(1-4) unfolding env_def s_def
  by (simp_all add: step_call_def program_sections run_simps rigid_dimer_def initial_state_def
      numeral_2_eq_2 exp_small')


lemma dimer_proposal:
  assumes "perdof_vars ig = [(''sigma'', 0), (''vold'', 0), (''xold'', 0), (''x1'', 0)]"
    "step_size ig = 1"
    "global_vars ig = [(''kT'', 1), (''b'', 1/4),
                       (''ke'', 0), (''Eold'', 0), (''Enew'', 0), (''accept'', 0),
                       (''naccept'', 0), (''ntrials'', 0)]"
  defines "env \<equiv> rigid_dimer 9 (\<lambda>t i. 1/2) (\<lambda>t i. if t = 16 then 1 - 2 * real i else 0)"
  defines "s \<equiv> initial_state ig (\<lambda>i. real i + 1/2) (\<lambda>i. 0)"
  shows "globals (after env ig ghmc_proposal s) ''kT'' = 1"
    and "uniform env (tick (after env ig ghmc_proposal s)) 0 = 1/2"
  using assms(1-3) unfolding env_def s_def
  by (simp_all add: program_sections run_simps rigid_dimer_def initial_state_def numeral_2_eq_2)

lemma exp_small2: "exp (- (3645/32)) * 2 < (1::real)"
proof -
  have "1 + 3645/32 \<le> exp (3645/32::real)" by (rule exp_ge_add_one_self)
  then have "(2::real) < exp (3645/32)" by simp
  then have "inverse (exp (3645/32::real)) < inverse 2"
    by (simp add: field_simps)
  then show ?thesis by (simp add: exp_minus)
qed

lemma oscillator_trial:
  assumes "perdof_vars ig = [(''sigma'', 0), (''vold'', 0), (''xold'', 0), (''x1'', 0)]"
    "step_size ig = 1"
    "global_vars ig = [(''kT'', 1), (''b'', 1/4),
                       (''ke'', 0), (''Eold'', 0), (''Enew'', 0), (''accept'', 0),
                       (''naccept'', 0), (''ntrials'', 0)]"
  defines "env \<equiv> harmonic_oscillator 9 1 (\<lambda>t i. 1/2) (\<lambda>t i. if t = 16 then 1 else 0)"
  defines "s \<equiv> initial_state ig (\<lambda>i. 1) (\<lambda>i. 0)"
  shows "perdof (after env ig ghmc_snapshot s) ''v'' = (\<lambda>i. 0)"
    and "globals (after env ig (ghmc_proposal @ [metropolis_accept]) s) ''accept'' = 0"
    and "tick (after env ig (ghmc_proposal @ ghmc_accept_reject) s) = 16"
  using assms(1-3) unfolding env_def s_def
  by (simp_all add: program_sections run_simps harmonic_oscillator_def initial_state_def
      exp_small2)

lemma oscillator_accepted:
  assumes "perdof_vars ig = [(''sigma'', 0), (''vold'', 0), (''xold'', 0), (''x1'', 0)]"
    "step_size ig = 1"
    "global_vars ig = [(''kT'', 1), (''b'', 1/4),
                       (''ke'', 0), (''Eold'', 0), (''Enew'', 0), (''accept'', 0),
                       (''naccept'', 0), (''ntrials'', 0)]"
  defines "env \<equiv> harmonic_oscillator 1 1 (\<lambda>t i. 0) (\<lambda>t i. 0)"
  defines "s \<equiv> initial_state ig (\<lambda>i. 1) (\<lambda>i. 0)"
  shows "globals (after env ig (ghmc_proposal @ [metropolis_accept]) s) ''accept'' = 1"
    and "perdof (after env ig (ghmc_proposal @ [metropolis_accept]) s) ''x'' 0 = 1/2"
    and "perdof (after env ig (ghmc_proposal @ [metropolis_accept]) s) ''v'' 0 = - (3/4)"
  using assms(1-3) unfolding env_def s_def
  by (simp_all add: program_sections run_simps harmonic_oscillator_def initial_state_def)

lemma ghmc_example:
  "perdof_vars (projr (GHMCIntegrator 1 1 (ln 4) 1))
     = [(''sigma'', 0), (''vold'', 0), (''xold'', 0), (''x1'', 0)]"
  "step_size (projr (GHMCIntegrator 1 1 (ln 4) 1)) = 1"
  "global_vars (projr (GHMCIntegrator 1 1 (ln 4) 1))
     = [(''kT'', 1), (''b'', 1/4), (''ke'', 0), (''Eold'', 0), (''Enew'', 0), (''accept'', 0),
        (''naccept'', 0), (''ntrials'', 0)]"
  "program (projr (GHMCIntegrator 1 1 (ln 4) 1))
     = ghmc_proposal @ ghmc_accept_reject @ velocity_randomization @ statistics"
  "globals (initial_state (projr (GHMCIntegrator 1 1 (ln 4) 1)) x0 v0) ''b'' = 1/4"
  "globals (initial_state (projr (GHMCIntegrator 1 1 (ln 4) 1)) x0 v0) ''kT'' = 1"
  using ghmc_built [OF built_examples(3) [of 1 1 "ln 4" 1]]
  by (simp_all add: exp_minus initial_state_def)

text \<open>
  C7: in MetropolisMonteCarloIntegrator, HMCIntegrator and GHMCIntegrator the program ends
  with \<open>naccept = naccept + accept\<close> and \<open>ntrials = ntrials + 1\<close>; a step call adds exactly
  1 to \<open>ntrials\<close> and the accept flag (0 or 1) to \<open>naccept\<close>, whatever the outcome of the trial,
  so \<open>naccept \<le> ntrials\<close> is kept by every trial and holds after any number of trials from
  a fresh context.
\<close>

theorem acceptance_statistics:
  assumes b: "MetropolisMonteCarloIntegrator kB temperature sigma timestep = Inr ig
           \<or> HMCIntegrator kB temperature nsteps timestep = Inr ig
           \<or> GHMCIntegrator kB temperature collision_rate timestep = Inr ig"
  shows "(\<exists>pre. program ig = pre @
            [ComputeGlobal ''naccept'' (Add (Var ''naccept'') (Var ''accept'')),
             ComputeGlobal ''ntrials'' (Add (Var ''ntrials'') (Number 1))])
       \<and> globals (step_call env ig s) ''ntrials'' = globals s ''ntrials'' + 1
       \<and> globals (step_call env ig s) ''naccept''
            = globals s ''naccept'' + globals (step_call env ig s) ''accept''
       \<and> (globals (step_call env ig s) ''accept'' = 0
            \<or> globals (step_call env ig s) ''accept'' = 1)
       \<and> (globals s ''naccept'' \<le> globals s ''ntrials'' \<longrightarrow>
            globals (step_call env ig s) ''naccept'' \<le> globals (step_call env ig s) ''ntrials'')
       \<and> globals ((step_call env ig ^^ k) (initial_state ig x0 v0)) ''ntrials'' = real k
       \<and> 0 \<le> globals ((step_call env ig ^^ k) (initial_state ig x0 v0)) ''naccept''
       \<and> globals ((step_call env ig ^^ k) (initial_state ig x0 v0)) ''naccept'' \<le> real k"
proof -
  note c = trial_counters [OF b]
  have p: "\<exists>pre. program ig = pre @
            [ComputeGlobal ''naccept'' (Add (Var ''naccept'') (Var ''accept'')),
             ComputeGlobal ''ntrials'' (Add (Var ''ntrials'') (Number 1))]"
    using b
  proof (elim disjE)
    assume "MetropolisMonteCarloIntegrator kB temperature sigma timestep = Inr ig"
    from mc_built(1) [OF this]
    have pr: "program ig = (mc_proposal @ mc_accept_reject) @
            [ComputeGlobal ''naccept'' (Add (Var ''naccept'') (Var ''accept'')),
             ComputeGlobal ''ntrials'' (Add (Var ''ntrials'') (Number 1))]"
      by (simp only: mc_statistics_def append_assoc)
    show ?thesis by (rule exI) (rule pr)
  next
    assume "HMCIntegrator kB temperature nsteps timestep = Inr ig"
    from hmc_built(1) [OF this]
    have pr: "program ig = (hmc_proposal (nat nsteps) @ hmc_accept_reject) @
            [ComputeGlobal ''naccept'' (Add (Var ''naccept'') (Var ''accept'')),
             ComputeGlobal ''ntrials'' (Add (Var ''ntrials'') (Number 1))]"
      by (simp only: statistics_def append_assoc)
    show ?thesis by (rule exI) (rule pr)
  next
    assume "GHMCIntegrator kB temperature collision_rate timestep = Inr ig"
    from ghmc_built(1) [OF this]
    have pr: "program ig = (ghmc_proposal @ ghmc_accept_reject @ velocity_randomization) @
            [ComputeGlobal ''naccept'' (Add (Var ''naccept'') (Var ''accept'')),
             ComputeGlobal ''ntrials'' (Add (Var ''ntrials'') (Number 1))]"
      by (simp only: statistics_def append_assoc)
    show ?thesis by (rule exI) (rule pr)
  qed
  have mono: "globals (step_call env ig s) ''naccept'' \<le> globals (step_call env ig s) ''ntrials''"
    if "globals s ''naccept'' \<le> globals s ''ntrials''" for s
    using that trial_counters [OF b, of env s] by auto
  let ?sk = "\<lambda>k. (step_call env ig ^^ k) (initial_state ig x0 v0)"
  have many: "globals (?sk k) ''ntrials'' = real k \<and> 0 \<le> globals (?sk k) ''naccept''
              \<and> globals (?sk k) ''naccept'' \<le> real k"
  proof (induction k)
    case 0
    show ?case by (simp add: initial_counters [OF b])
  next
    case (Suc k)
    from trial_counters [OF b, of env "?sk k"] Suc show ?case by auto
  qed
  from p c(1) [of env s] c(2) [of env s] c(3) [of env s] mono [of s] many show ?thesis
    by blast
qed


theorem acceptance_statistics_witness:
  "globals ((step_call (harmonic_oscillator 1 1 (\<lambda>t i. 1/2) (\<lambda>t i. 1))
               (projr (HMCIntegrator 1 298 10 1)) ^^ 3)
            (initial_state (projr (HMCIntegrator 1 298 10 1)) (\<lambda>i. 0) (\<lambda>i. 0))) ''ntrials'' = 3
   \<and> globals ((step_call (harmonic_oscillator 1 1 (\<lambda>t i. 1/2) (\<lambda>t i. 1))
               (projr (HMCIntegrator 1 298 10 1)) ^^ 3)
            (initial_state (projr (HMCIntegrator 1 298 10 1)) (\<lambda>i. 0) (\<lambda>i. 0))) ''naccept'' \<le> 3
   \<and> globals (step_call (harmonic_oscillator 1 1 (\<lambda>t i. 1/2) (\<lambda>t i. 1))
               (projr (HMCIntegrator 1 298 10 1))
               (initial_state (projr (HMCIntegrator 1 298 10 1)) (\<lambda>i. 0) (\<lambda>i. 0))) ''naccept''
       \<le> globals (step_call (harmonic_oscillator 1 1 (\<lambda>t i. 1/2) (\<lambda>t i. 1))
               (projr (HMCIntegrator 1 298 10 1))
               (initial_state (projr (HMCIntegrator 1 298 10 1)) (\<lambda>i. 0) (\<lambda>i. 0))) ''ntrials''"
proof -
  let ?ig = "projr (HMCIntegrator 1 298 10 1)"
  let ?s0 = "initial_state ?ig (\<lambda>i. 0) (\<lambda>i. 0)"
  have b: "MetropolisMonteCarloIntegrator 1 298 1 1 = Inr ?ig
           \<or> HMCIntegrator 1 298 10 1 = Inr ?ig
           \<or> GHMCIntegrator 1 298 91 1 = Inr ?ig"
    by (rule disjI2, rule disjI1) (rule built_examples(2))
  note t = acceptance_statistics [OF b, of "harmonic_oscillator 1 1 (\<lambda>t i. 1/2) (\<lambda>t i. 1)"
      ?s0 3 "\<lambda>i. 0" "\<lambda>i. 0"]
  have z: "globals ?s0 ''naccept'' \<le> globals ?s0 ''ntrials''"
    by (simp add: initial_counters [OF b])
  from t z show ?thesis by simp
qed

text \<open>
  C3 (as stated): accept is 1 only if the Metropolis ratio is strictly greater than the
  uniform draw.  HMC with one velocity Verlet step on the harmonic oscillator, started at
  rest position with unit velocity draw: \<open>Enew - Eold = 1/8\<close>, \<open>kT = 1\<close>, and the uniform draw
  equals the ratio \<open>exp (-1/8)\<close>; the trial is accepted.
\<close>

theorem strict_comparison_counterexample:
  "globals (after (harmonic_oscillator 1 1 (\<lambda>t i. exp (- (1/8))) (\<lambda>t i. 1))
              (projr (HMCIntegrator 1 1 1 1)) (hmc_proposal 1)
              (initial_state (projr (HMCIntegrator 1 1 1 1)) (\<lambda>i. 0) (\<lambda>i. 0))) ''Enew''
     - globals (after (harmonic_oscillator 1 1 (\<lambda>t i. exp (- (1/8))) (\<lambda>t i. 1))
              (projr (HMCIntegrator 1 1 1 1)) (hmc_proposal 1)
              (initial_state (projr (HMCIntegrator 1 1 1 1)) (\<lambda>i. 0) (\<lambda>i. 0))) ''Eold'' = 1/8
   \<and> globals (after (harmonic_oscillator 1 1 (\<lambda>t i. exp (- (1/8))) (\<lambda>t i. 1))
              (projr (HMCIntegrator 1 1 1 1)) (hmc_proposal 1)
              (initial_state (projr (HMCIntegrator 1 1 1 1)) (\<lambda>i. 0) (\<lambda>i. 0))) ''kT'' = 1
   \<and> uniform (harmonic_oscillator 1 1 (\<lambda>t i. exp (- (1/8))) (\<lambda>t i. 1))
        (tick (after (harmonic_oscillator 1 1 (\<lambda>t i. exp (- (1/8))) (\<lambda>t i. 1))
              (projr (HMCIntegrator 1 1 1 1)) (hmc_proposal 1)
              (initial_state (projr (HMCIntegrator 1 1 1 1)) (\<lambda>i. 0) (\<lambda>i. 0)))) 0
       = exp (- (1/8))
   \<and> globals (step_call (harmonic_oscillator 1 1 (\<lambda>t i. exp (- (1/8))) (\<lambda>t i. 1))
              (projr (HMCIntegrator 1 1 1 1))
              (initial_state (projr (HMCIntegrator 1 1 1 1)) (\<lambda>i. 0) (\<lambda>i. 0))) ''accept'' = 1"
proof -
  let ?env = "harmonic_oscillator 1 1 (\<lambda>t i. exp (- (1/8))) (\<lambda>t i. 1)"
  let ?ig = "projr (HMCIntegrator 1 1 1 1)"
  let ?s0 = "initial_state ?ig (\<lambda>i. 0) (\<lambda>i. 0)"
  let ?s1 = "after ?env ?ig (hmc_proposal 1) ?s0"
  note b = hmc_built [OF built_examples(2) [of 1 1 1 1]]
  have run: "globals ?s1 ''Enew'' = 5/8" "globals ?s1 ''Eold'' = 1/2" "globals ?s1 ''kT'' = 1"
    using b(2,3,4)
    by (simp_all add: program_sections run_simps harmonic_oscillator_def initial_state_def)
  have u: "uniform ?env (tick ?s1) 0 = exp (- (1/8))"
    by (simp add: harmonic_oscillator_def)
  have sc: "step_call ?env ?ig ?s0 = after ?env ?ig (hmc_accept_reject @ statistics) ?s1"
    unfolding step_call_def b(1) using after_append [OF hmc_proposal_straight] by simp
  have acc: "globals (step_call ?env ?ig ?s0) ''accept'' = 1"
    unfolding sc hmc_tail(2) [OF b(2)] u run by simp
  from run u acc show ?thesis by simp
qed

text \<open>
  C3 (amended): in the three Metropolized integrators the accept flag set by a step call is
  1 if and only if the uniform draw is at most the Metropolis ratio
  \<open>exp (- (Enew - Eold) / kT)\<close> (for plain Metropolis Monte Carlo: the potential energy of the
  displaced positions in place of Enew), and 0 otherwise; a draw equal to the ratio accepts.
\<close>

theorem metropolis_criterion:
  "(MetropolisMonteCarloIntegrator kB temperature sigma timestep = Inr ig \<longrightarrow>
      program ig = mc_proposal @ mc_accept_reject @ mc_statistics
      \<and> globals (step_call env ig s) ''accept''
          = (if uniform env (tick (after env ig mc_proposal s)) 0
                  \<le> exp (- (potential env (perdof (after env ig mc_proposal s) ''x'')
                             - globals (after env ig mc_proposal s) ''Eold'')
                          / globals (after env ig mc_proposal s) ''kT'')
             then 1 else 0))
   \<and> (HMCIntegrator kB temperature nsteps timestep = Inr ig \<longrightarrow>
      program ig = hmc_proposal (nat nsteps) @ hmc_accept_reject @ statistics
      \<and> globals (step_call env ig s) ''accept''
          = (if uniform env (tick (after env ig (hmc_proposal (nat nsteps)) s)) 0
                  \<le> exp (- (globals (after env ig (hmc_proposal (nat nsteps)) s) ''Enew''
                             - globals (after env ig (hmc_proposal (nat nsteps)) s) ''Eold'')
                          / globals (after env ig (hmc_proposal (nat nsteps)) s) ''kT'')
             then 1 else 0))
   \<and> (GHMCIntegrator kB temperature collision_rate timestep = Inr ig \<longrightarrow>
      program ig = ghmc_proposal @ ghmc_accept_reject @ velocity_randomization @ statistics
      \<and> globals (step_call env ig s) ''accept''
          = (if uniform env (tick (after env ig ghmc_proposal s)) 0
                  \<le> exp (- (globals (after env ig ghmc_proposal s) ''Enew''
                             - globals (after env ig ghmc_proposal s) ''Eold'')
                          / globals (after env ig ghmc_proposal s) ''kT'')
             then 1 else 0))"
proof (intro conjI impI)
  assume b: "MetropolisMonteCarloIntegrator kB temperature sigma timestep = Inr ig"
  show "program ig = mc_proposal @ mc_accept_reject @ mc_statistics" by (rule mc_built(1) [OF b])
  have sc: "step_call env ig s
              = after env ig (mc_accept_reject @ mc_statistics) (after env ig mc_proposal s)"
    unfolding step_call_def mc_built(1) [OF b] by (rule after_append [OF mc_proposal_straight])
  show "globals (step_call env ig s) ''accept''
          = (if uniform env (tick (after env ig mc_proposal s)) 0
                  \<le> exp (- (potential env (perdof (after env ig mc_proposal s) ''x'')
                             - globals (after env ig mc_proposal s) ''Eold'')
                          / globals (after env ig mc_proposal s) ''kT'')
             then 1 else 0)"
    unfolding sc by (rule mc_tail(2) [OF mc_built(2) [OF b]])
next
  assume b: "HMCIntegrator kB temperature nsteps timestep = Inr ig"
  show "program ig = hmc_proposal (nat nsteps) @ hmc_accept_reject @ statistics"
    by (rule hmc_built(1) [OF b])
  have sc: "step_call env ig s
              = after env ig (hmc_accept_reject @ statistics)
                  (after env ig (hmc_proposal (nat nsteps)) s)"
    unfolding step_call_def hmc_built(1) [OF b] by (rule after_append [OF hmc_proposal_straight])
  show "globals (step_call env ig s) ''accept''
          = (if uniform env (tick (after env ig (hmc_proposal (nat nsteps)) s)) 0
                  \<le> exp (- (globals (after env ig (hmc_proposal (nat nsteps)) s) ''Enew''
                             - globals (after env ig (hmc_proposal (nat nsteps)) s) ''Eold'')
                          / globals (after env ig (hmc_proposal (nat nsteps)) s) ''kT'')
             then 1 else 0)"
    unfolding sc by (rule hmc_tail(2) [OF hmc_built(2) [OF b]])
next
  assume b: "GHMCIntegrator kB temperature collision_rate timestep = Inr ig"
  show "program ig = ghmc_proposal @ ghmc_accept_reject @ velocity_randomization @ statistics"
    by (rule ghmc_built(1) [OF b])
  have sc: "step_call env ig s
              = after env ig (ghmc_accept_reject @ velocity_randomization @ statistics)
                  (after env ig ghmc_proposal s)"
    unfolding step_call_def ghmc_built(1) [OF b]
    by (rule after_append [OF ghmc_proposal_straight])
  show "globals (step_call env ig s) ''accept''
          = (if uniform env (tick (after env ig ghmc_proposal s)) 0
                  \<le> exp (- (globals (after env ig ghmc_proposal s) ''Enew''
                             - globals (after env ig ghmc_proposal s) ''Eold'')
                          / globals (after env ig ghmc_proposal s) ''kT'')
             then 1 else 0)"
    unfolding sc by (rule ghmc_tail(2) [OF ghmc_built(2) [OF b]])
qed

theorem metropolis_criterion_witness:
  "globals (step_call (harmonic_oscillator 1 1 (\<lambda>t i. 1/2) (\<lambda>t i. 1))
              (projr (HMCIntegrator 1 1 0 1))
              (initial_state (projr (HMCIntegrator 1 1 0 1)) (\<lambda>i. 0) (\<lambda>i. 0))) ''accept'' = 1
   \<and> globals (step_call (harmonic_oscillator 1 1 (\<lambda>t i. 0) (\<lambda>t i. 1))
              (projr (MetropolisMonteCarloIntegrator 1 1 1 1))
              (initial_state (projr (MetropolisMonteCarloIntegrator 1 1 1 1)) (\<lambda>i. 0) (\<lambda>i. 0)))
       ''accept'' = 1
   \<and> globals (step_call (rigid_dimer 9 (\<lambda>t i. 1/2) (\<lambda>t i. if t = 16 then 1 - 2 * real i else 0))
              (projr (GHMCIntegrator 1 1 (ln 4) 1))
              (initial_state (projr (GHMCIntegrator 1 1 (ln 4) 1)) (\<lambda>i. real i + 1/2) (\<lambda>i. 0)))
       ''accept'' = 0"
proof -
  let ?env = "harmonic_oscillator 1 1 (\<lambda>t i. 1/2) (\<lambda>t i. 1)"
  let ?ig = "projr (HMCIntegrator 1 1 0 1)"
  let ?s0 = "initial_state ?ig (\<lambda>i. 0) (\<lambda>i. 0)"
  let ?s1 = "after ?env ?ig (hmc_proposal 0) ?s0"
  note b = hmc_built [OF built_examples(2) [of 1 1 0 1]]
  have run: "globals ?s1 ''Enew'' = 1/2" "globals ?s1 ''Eold'' = 1/2" "globals ?s1 ''kT'' = 1"
    using b(2,3,4)
    by (simp_all add: program_sections run_simps harmonic_oscillator_def initial_state_def)
  have u: "uniform ?env (tick ?s1) 0 = 1/2"
    by (simp add: harmonic_oscillator_def)
  note t = metropolis_criterion [of 1 1 1 1 ?ig ?env ?s0 0 1, THEN conjunct2, THEN conjunct1,
      THEN mp, OF built_examples(2), THEN conjunct2]
  have 1: "globals (step_call ?env ?ig ?s0) ''accept'' = 1"
    using t by (simp add: run u)
  let ?env2 = "harmonic_oscillator 1 1 (\<lambda>t i. 0) (\<lambda>t i. 1)"
  let ?mc = "projr (MetropolisMonteCarloIntegrator 1 1 1 1)"
  note m = metropolis_criterion [of 1 1 1 1 ?mc ?env2 "initial_state ?mc (\<lambda>i. 0) (\<lambda>i. 0)" 0 1,
      THEN conjunct1, THEN mp, OF built_examples(1), THEN conjunct2]
  have 2: "globals (step_call ?env2 ?mc (initial_state ?mc (\<lambda>i. 0) (\<lambda>i. 0))) ''accept'' = 1"
    unfolding m by (simp add: harmonic_oscillator_def)
  let ?dimer = "rigid_dimer 9 (\<lambda>t i. 1/2) (\<lambda>t i. if t = 16 then 1 - 2 * real i else 0)"
  let ?gh = "projr (GHMCIntegrator 1 1 (ln 4) 1)"
  let ?sd = "initial_state ?gh (\<lambda>i. real i + 1/2) (\<lambda>i. 0)"
  note d = dimer_trial [OF ghmc_example(1-4)]
  note p = dimer_proposal [OF ghmc_example(1-3)]
  note g = metropolis_criterion [of 1 1 1 1 ?gh ?dimer ?sd 0 "ln 4",
      THEN conjunct2, THEN conjunct2, THEN mp, OF built_examples(3), THEN conjunct2]
  have 3: "globals (step_call ?dimer ?gh ?sd) ''accept'' = 0"
    unfolding g d(3) d(4) p using exp_small' by simp
  from 1 2 3 show ?thesis by blast
qed

lemma new_energy_total:
  assumes "''ke'' \<notin> set (map fst (perdof_vars ig))"
  shows "globals (after env ig new_energy s) ''Enew'' = total_energy env (after env ig new_energy s)"
  using assms by (simp add: new_energy_def kinetic_sum_def total_energy_def run_simps)

lemma hmc_store_old_total:
  assumes "''ke'' \<notin> set (map fst (perdof_vars ig))"
  shows "globals (after env ig hmc_store_old s) ''Eold''
           = total_energy env (after env ig hmc_store_old s)"
  using assms by (simp add: hmc_store_old_def kinetic_sum_def total_energy_def run_simps)

lemma ghmc_store_old_total:
  assumes "''ke'' \<notin> set (map fst (perdof_vars ig))"
  shows "globals (after env ig ghmc_store_old s) ''Eold''
           = total_energy env (after env ig ghmc_store_old s)"
  using assms by (simp add: ghmc_store_old_def kinetic_sum_def total_energy_def run_simps)

lemma mc_store_old_potential:
  assumes "perdof_vars ig = [(''sigma_x'', sg), (''sigma_v'', 0), (''xold'', 0)]"
  shows "globals (after env ig mc_store_old s) ''Eold''
           = potential env (perdof (after env ig mc_store_old s) ''x'')"
  using assms by (simp add: mc_store_old_def run_simps)

lemma straight_sections:
  "\<forall>ins \<in> set ([UpdateContextState] @ mc_update_velocities). \<not> opens_block ins"
  "\<forall>ins \<in> set mc_snapshot. \<not> opens_block ins"
  "\<forall>ins \<in> set (hmc_precompute @ [UpdateContextState] @ hmc_draw_velocity). \<not> opens_block ins"
  "\<forall>ins \<in> set hmc_snapshot. \<not> opens_block ins"
  "\<forall>ins \<in> set (hmc_snapshot @ concat (replicate n velocity_verlet)). \<not> opens_block ins"
  "\<forall>ins \<in> set (hmc_precompute @ velocity_randomization
                   @ [ConstrainPositions, ConstrainVelocities]). \<not> opens_block ins"
  "\<forall>ins \<in> set ghmc_snapshot. \<not> opens_block ins"
  "\<forall>ins \<in> set (ghmc_snapshot @ ghmc_velocity_verlet). \<not> opens_block ins"
  "\<forall>ins \<in> set hmc_precompute. \<not> opens_block ins"
  by (auto simp: program_sections)

lemma proposal_keeps_Eold:
  "\<forall>ins \<in> set (concat (replicate n velocity_verlet) @ new_energy).
      global_target ins \<noteq> Some ''Eold''"
  "\<forall>ins \<in> set (ghmc_velocity_verlet @ new_energy). global_target ins \<noteq> Some ''Eold''"
  by (auto simp: program_sections)

lemma program_keeps_Enew:
  "\<forall>ins \<in> set (mc_proposal @ mc_accept_reject @ mc_statistics).
      global_target ins \<noteq> Some ''Enew''"
  by (auto simp: program_sections)

lemma phase_steps:
  "after env ig mc_snapshot s
     = after env ig mc_store_old (after env ig ([UpdateContextState] @ mc_update_velocities) s)"
  "after env ig hmc_snapshot s
     = after env ig hmc_store_old
         (after env ig (hmc_precompute @ [UpdateContextState] @ hmc_draw_velocity) s)"
  "after env ig (hmc_proposal n) s
     = after env ig new_energy (after env ig (hmc_snapshot @ concat (replicate n velocity_verlet)) s)"
  "after env ig (hmc_proposal n) s
     = after env ig (concat (replicate n velocity_verlet) @ new_energy)
         (after env ig hmc_snapshot s)"
  "after env ig ghmc_snapshot s
     = after env ig ghmc_store_old
         (after env ig (hmc_precompute @ velocity_randomization
                        @ [ConstrainPositions, ConstrainVelocities]) s)"
  "after env ig ghmc_proposal s
     = after env ig new_energy (after env ig (ghmc_snapshot @ ghmc_velocity_verlet) s)"
  "after env ig ghmc_proposal s
     = after env ig (ghmc_velocity_verlet @ new_energy) (after env ig ghmc_snapshot s)"
proof -
  have e1: "mc_snapshot = ([UpdateContextState] @ mc_update_velocities) @ mc_store_old"
    by (simp add: mc_snapshot_def)
  show "after env ig mc_snapshot s
     = after env ig mc_store_old (after env ig ([UpdateContextState] @ mc_update_velocities) s)"
    unfolding e1 by (rule after_append [OF straight_sections(1)])
  have e2: "hmc_snapshot = (hmc_precompute @ [UpdateContextState] @ hmc_draw_velocity) @ hmc_store_old"
    by (simp add: hmc_snapshot_def)
  show "after env ig hmc_snapshot s
     = after env ig hmc_store_old
         (after env ig (hmc_precompute @ [UpdateContextState] @ hmc_draw_velocity) s)"
    unfolding e2 by (rule after_append [OF straight_sections(3)])
  have e3: "hmc_proposal n = (hmc_snapshot @ concat (replicate n velocity_verlet)) @ new_energy"
    by (simp add: hmc_proposal_def)
  show "after env ig (hmc_proposal n) s
     = after env ig new_energy (after env ig (hmc_snapshot @ concat (replicate n velocity_verlet)) s)"
    unfolding e3 by (rule after_append [OF straight_sections(5)])
  show "after env ig (hmc_proposal n) s
     = after env ig (concat (replicate n velocity_verlet) @ new_energy)
         (after env ig hmc_snapshot s)"
    unfolding hmc_proposal_def by (rule after_append [OF straight_sections(4)])
  have e5: "ghmc_snapshot = (hmc_precompute @ velocity_randomization
                        @ [ConstrainPositions, ConstrainVelocities]) @ ghmc_store_old"
    by (simp add: ghmc_snapshot_def)
  show "after env ig ghmc_snapshot s
     = after env ig ghmc_store_old
         (after env ig (hmc_precompute @ velocity_randomization
                        @ [ConstrainPositions, ConstrainVelocities]) s)"
    unfolding e5 by (rule after_append [OF straight_sections(6)])
  have e6: "ghmc_proposal = (ghmc_snapshot @ ghmc_velocity_verlet) @ new_energy"
    by (simp add: ghmc_proposal_def)
  show "after env ig ghmc_proposal s
     = after env ig new_energy (after env ig (ghmc_snapshot @ ghmc_velocity_verlet) s)"
    unfolding e6 by (rule after_append [OF straight_sections(8)])
  show "after env ig ghmc_proposal s
     = after env ig (ghmc_velocity_verlet @ new_energy) (after env ig ghmc_snapshot s)"
    unfolding ghmc_proposal_def by (rule after_append [OF straight_sections(7)])
qed

text \<open>
  C8 (as stated): for plain Metropolis Monte Carlo too, the stored old energy is kinetic
  plus potential.  On the harmonic oscillator at position 1 with unit velocity draw the
  snapshot stores \<open>Eold = 1/2\<close>, the potential energy alone; kinetic plus potential is 1.
\<close>

theorem mc_energy_counterexample:
  "globals (after (harmonic_oscillator 1 1 (\<lambda>t i. 1/2) (\<lambda>t i. 1))
              (projr (MetropolisMonteCarloIntegrator 1 1 1 1)) mc_snapshot
              (initial_state (projr (MetropolisMonteCarloIntegrator 1 1 1 1)) (\<lambda>i. 1) (\<lambda>i. 0)))
      ''Eold'' = 1/2
   \<and> total_energy (harmonic_oscillator 1 1 (\<lambda>t i. 1/2) (\<lambda>t i. 1))
        (after (harmonic_oscillator 1 1 (\<lambda>t i. 1/2) (\<lambda>t i. 1))
              (projr (MetropolisMonteCarloIntegrator 1 1 1 1)) mc_snapshot
              (initial_state (projr (MetropolisMonteCarloIntegrator 1 1 1 1)) (\<lambda>i. 1) (\<lambda>i. 0)))
      = 1"
proof -
  note b = mc_built [OF built_examples(1) [of 1 1 1 1]]
  show ?thesis
    using b(2,3,4)
    by (simp add: program_sections run_simps harmonic_oscillator_def initial_state_def
        total_energy_def)
qed

text \<open>
  C8 (amended): in HMCIntegrator and GHMCIntegrator the stored \<open>Eold\<close> is the kinetic plus
  potential energy of the state at the snapshot, \<open>Enew\<close> is the kinetic plus potential
  energy of the proposed state, and \<open>Eold\<close> is still the snapshot's value when the
  accept/reject step reads it.  MetropolisMonteCarloIntegrator stores the potential energy
  alone in \<open>Eold\<close> and never writes \<open>Enew\<close>.
\<close>

theorem trial_energies:
  "(HMCIntegrator kB temperature nsteps timestep = Inr ig \<longrightarrow>
      globals (after env ig hmc_snapshot s) ''Eold''
        = total_energy env (after env ig hmc_snapshot s)
      \<and> globals (after env ig (hmc_proposal (nat nsteps)) s) ''Enew''
        = total_energy env (after env ig (hmc_proposal (nat nsteps)) s)
      \<and> globals (after env ig (hmc_proposal (nat nsteps)) s) ''Eold''
        = globals (after env ig hmc_snapshot s) ''Eold'')
   \<and> (GHMCIntegrator kB temperature collision_rate timestep = Inr ig \<longrightarrow>
      globals (after env ig ghmc_snapshot s) ''Eold''
        = total_energy env (after env ig ghmc_snapshot s)
      \<and> globals (after env ig ghmc_proposal s) ''Enew''
        = total_energy env (after env ig ghmc_proposal s)
      \<and> globals (after env ig ghmc_proposal s) ''Eold''
        = globals (after env ig ghmc_snapshot s) ''Eold'')
   \<and> (MetropolisMonteCarloIntegrator kB temperature sigma timestep = Inr ig \<longrightarrow>
      globals (after env ig mc_snapshot s) ''Eold''
        = potential env (perdof (after env ig mc_snapshot s) ''x'')
      \<and> globals (step_call env ig s) ''Enew'' = globals s ''Enew'')"
proof (intro conjI impI)
  assume b: "HMCIntegrator kB temperature nsteps timestep = Inr ig"
  have ke: "''ke'' \<notin> set (map fst (perdof_vars ig))" by (simp add: hmc_built(2) [OF b])
  show "globals (after env ig hmc_snapshot s) ''Eold''
        = total_energy env (after env ig hmc_snapshot s)"
    unfolding phase_steps(2) by (rule hmc_store_old_total [OF ke])
  show "globals (after env ig (hmc_proposal (nat nsteps)) s) ''Enew''
        = total_energy env (after env ig (hmc_proposal (nat nsteps)) s)"
    unfolding phase_steps(3) by (rule new_energy_total [OF ke])
  show "globals (after env ig (hmc_proposal (nat nsteps)) s) ''Eold''
        = globals (after env ig hmc_snapshot s) ''Eold''"
    unfolding phase_steps(4) by (rule after_globals_frame [OF proposal_keeps_Eold(1)])
next
  assume b: "GHMCIntegrator kB temperature collision_rate timestep = Inr ig"
  have ke: "''ke'' \<notin> set (map fst (perdof_vars ig))" by (simp add: ghmc_built(2) [OF b])
  show "globals (after env ig ghmc_snapshot s) ''Eold''
        = total_energy env (after env ig ghmc_snapshot s)"
    unfolding phase_steps(5) by (rule ghmc_store_old_total [OF ke])
  show "globals (after env ig ghmc_proposal s) ''Enew''
        = total_energy env (after env ig ghmc_proposal s)"
    unfolding phase_steps(6) by (rule new_energy_total [OF ke])
  show "globals (after env ig ghmc_proposal s) ''Eold''
        = globals (after env ig ghmc_snapshot s) ''Eold''"
    unfolding phase_steps(7) by (rule after_globals_frame [OF proposal_keeps_Eold(2)])
next
  assume b: "MetropolisMonteCarloIntegrator kB temperature sigma timestep = Inr ig"
  show "globals (after env ig mc_snapshot s) ''Eold''
        = potential env (perdof (after env ig mc_snapshot s) ''x'')"
    unfolding phase_steps(1) by (rule mc_store_old_potential [OF mc_built(2) [OF b]])
  show "globals (step_call env ig s) ''Enew'' = globals s ''Enew''"
    unfolding step_call_def mc_built(1) [OF b]
    by (rule after_globals_frame [OF program_keeps_Enew])
qed

theorem trial_energies_witness:
  "total_energy (harmonic_oscillator 1 1 (\<lambda>t i. 1/2) (\<lambda>t i. 1))
        (after (harmonic_oscillator 1 1 (\<lambda>t i. 1/2) (\<lambda>t i. 1))
              (projr (HMCIntegrator 1 1 1 1)) hmc_snapshot
              (initial_state (projr (HMCIntegrator 1 1 1 1)) (\<lambda>i. 1) (\<lambda>i. 0))) = 1
   \<and> globals (after (harmonic_oscillator 1 1 (\<lambda>t i. 1/2) (\<lambda>t i. 1))
              (projr (HMCIntegrator 1 1 1 1)) hmc_snapshot
              (initial_state (projr (HMCIntegrator 1 1 1 1)) (\<lambda>i. 1) (\<lambda>i. 0))) ''Eold'' = 1
   \<and> total_energy (rigid_dimer 9 (\<lambda>t i. 1/2) (\<lambda>t i. if t = 16 then 1 - 2 * real i else 0))
        (after (rigid_dimer 9 (\<lambda>t i. 1/2) (\<lambda>t i. if t = 16 then 1 - 2 * real i else 0))
              (projr (GHMCIntegrator 1 1 (ln 4) 1)) ghmc_snapshot
              (initial_state (projr (GHMCIntegrator 1 1 (ln 4) 1)) (\<lambda>i. real i + 1/2) (\<lambda>i. 0)))
       = 45/4
   \<and> total_energy (rigid_dimer 9 (\<lambda>t i. 1/2) (\<lambda>t i. if t = 16 then 1 - 2 * real i else 0))
        (after (rigid_dimer 9 (\<lambda>t i. 1/2) (\<lambda>t i. if t = 16 then 1 - 2 * real i else 0))
              (projr (GHMCIntegrator 1 1 (ln 4) 1)) ghmc_proposal
              (initial_state (projr (GHMCIntegrator 1 1 (ln 4) 1)) (\<lambda>i. real i + 1/2) (\<lambda>i. 0)))
       = 3825/16
   \<and> globals (step_call (harmonic_oscillator 1 1 (\<lambda>t i. 1/2) (\<lambda>t i. 1))
              (projr (MetropolisMonteCarloIntegrator 1 1 1 1))
              (initial_state (projr (MetropolisMonteCarloIntegrator 1 1 1 1)) (\<lambda>i. 1) (\<lambda>i. 0)))
       ''Enew'' = 0"
proof -
  let ?osc = "harmonic_oscillator 1 1 (\<lambda>t i. 1/2) (\<lambda>t i. 1)"
  let ?hmc = "projr (HMCIntegrator 1 1 1 1)"
  let ?sh = "initial_state ?hmc (\<lambda>i. 1) (\<lambda>i. 0)"
  note b = hmc_built [OF built_examples(2) [of 1 1 1 1]]
  note t = trial_energies [of 1 1 1 1 ?hmc ?osc ?sh 1 1,
      THEN conjunct1, THEN mp, OF built_examples(2), THEN conjunct1]
  have v: "total_energy ?osc (after ?osc ?hmc hmc_snapshot ?sh) = 1"
    using b(2,3,4)
    by (simp add: program_sections run_simps harmonic_oscillator_def initial_state_def
        total_energy_def)
  from t v have 1: "globals (after ?osc ?hmc hmc_snapshot ?sh) ''Eold'' = 1" by simp
  let ?dimer = "rigid_dimer 9 (\<lambda>t i. 1/2) (\<lambda>t i. if t = 16 then 1 - 2 * real i else 0)"
  let ?gh = "projr (GHMCIntegrator 1 1 (ln 4) 1)"
  let ?sd = "initial_state ?gh (\<lambda>i. real i + 1/2) (\<lambda>i. 0)"
  note d = dimer_trial [OF ghmc_example(1-4)]
  note g = trial_energies [of 1 1 1 1 ?gh ?dimer ?sd "ln 4" 1,
      THEN conjunct2, THEN conjunct1, THEN mp, OF built_examples(3)]
  from g d(3) d(4) have 2: "total_energy ?dimer (after ?dimer ?gh ghmc_snapshot ?sd) = 45/4"
    "total_energy ?dimer (after ?dimer ?gh ghmc_proposal ?sd) = 3825/16"
    by simp_all
  let ?mc = "projr (MetropolisMonteCarloIntegrator 1 1 1 1)"
  let ?sm = "initial_state ?mc (\<lambda>i. 1) (\<lambda>i. 0)"
  note m = trial_energies [of 1 1 1 1 ?mc ?osc ?sm 1 1,
      THEN conjunct2, THEN conjunct2, THEN mp, OF built_examples(1), THEN conjunct2]
  have "globals ?sm ''Enew'' = 0"
    using mc_built(4) [OF built_examples(1) [of 1 1 1 1]] by (simp add: initial_state_def)
  with m have 3: "globals (step_call ?osc ?mc ?sm) ''Enew'' = 0" by simp
  from v 1 2 3 show ?thesis by blast
qed

lemma after_append_balanced:
  assumes "fst (exec env ig xs (0, s)) = 0"
  shows "after env ig (xs @ ys) s = after env ig ys (after env ig xs s)"
proof -
  from assms have e: "exec env ig xs (0, s) = (0, after env ig xs s)"
    unfolding after_def by (cases "exec env ig xs (0, s)") simp
  have "after env ig (xs @ ys) s = snd (exec env ig ys (exec env ig xs (0, s)))"
    unfolding after_def exec_append ..
  also have "\<dots> = snd (exec env ig ys (0, after env ig xs s))"
    unfolding e ..
  finally show ?thesis unfolding after_def .
qed

lemma ghmc_block:
  assumes "perdof_vars ig = [(''sigma'', 0), (''vold'', 0), (''xold'', 0), (''x1'', 0)]"
  shows "fst (exec env ig ghmc_accept_reject (0, s)) = 0"
    and "globals (after env ig ghmc_accept_reject s) ''accept''
           = globals (after env ig [metropolis_accept] s) ''accept''"
    and "perdof (after env ig [metropolis_accept] s) = perdof s"
    and "globals (after env ig [metropolis_accept] s) ''accept'' \<noteq> 1 \<Longrightarrow>
           perdof (after env ig ghmc_accept_reject s) ''x'' = perdof s ''xold''
           \<and> perdof (after env ig ghmc_accept_reject s) ''v'' = (\<lambda>i. - perdof s ''vold'' i)"
    and "globals (after env ig [metropolis_accept] s) ''accept'' = 1 \<Longrightarrow>
           perdof (after env ig ghmc_accept_reject s) ''x'' = perdof s ''x''
           \<and> perdof (after env ig ghmc_accept_reject s) ''v'' = perdof s ''v''"
    and "perdof (after env ig ghmc_accept_reject s) ''sigma'' = perdof s ''sigma''"
  using assms
  by (simp_all add: ghmc_accept_reject_def metropolis_accept_def run_simps split: if_splits)

lemma ghmc_store_old_copies:
  assumes "perdof_vars ig = [(''sigma'', 0), (''vold'', 0), (''xold'', 0), (''x1'', 0)]"
  shows "perdof (after env ig ghmc_store_old s) ''xold'' = perdof (after env ig ghmc_store_old s) ''x''"
    and "perdof (after env ig ghmc_store_old s) ''vold'' = perdof (after env ig ghmc_store_old s) ''v''"
  using assms
  by (simp_all add: ghmc_store_old_def kinetic_sum_def run_simps)

lemma proposal_keeps_old:
  "\<forall>ins \<in> set (ghmc_velocity_verlet @ new_energy). ''xold'' \<notin> set (perdof_targets ins)"
  "\<forall>ins \<in> set (ghmc_velocity_verlet @ new_energy). ''vold'' \<notin> set (perdof_targets ins)"
  by (auto simp: program_sections)

lemma ghmc_branch:
  assumes b: "GHMCIntegrator kB temperature collision_rate timestep = Inr ig"
  shows "perdof (after env ig ghmc_snapshot s) ''xold'' = perdof (after env ig ghmc_snapshot s) ''x''
     \<and> perdof (after env ig ghmc_snapshot s) ''vold'' = perdof (after env ig ghmc_snapshot s) ''v''
     \<and> program ig = ghmc_proposal @ ghmc_accept_reject @ velocity_randomization @ statistics
     \<and> globals (after env ig (ghmc_proposal @ ghmc_accept_reject) s) ''accept''
         = globals (after env ig (ghmc_proposal @ [metropolis_accept]) s) ''accept''
     \<and> (globals (after env ig (ghmc_proposal @ [metropolis_accept]) s) ''accept'' \<noteq> 1 \<longrightarrow>
          perdof (after env ig (ghmc_proposal @ ghmc_accept_reject) s) ''x''
            = perdof (after env ig ghmc_snapshot s) ''x''
          \<and> perdof (after env ig (ghmc_proposal @ ghmc_accept_reject) s) ''v''
            = (\<lambda>i. - perdof (after env ig ghmc_snapshot s) ''v'' i))
     \<and> (globals (after env ig (ghmc_proposal @ [metropolis_accept]) s) ''accept'' = 1 \<longrightarrow>
          perdof (after env ig (ghmc_proposal @ ghmc_accept_reject) s) ''x''
            = perdof (after env ig (ghmc_proposal @ [metropolis_accept]) s) ''x''
          \<and> perdof (after env ig (ghmc_proposal @ ghmc_accept_reject) s) ''v''
            = perdof (after env ig (ghmc_proposal @ [metropolis_accept]) s) ''v'')"
proof -
  note pv = ghmc_built(2) [OF b]
  let ?s0 = "after env ig ghmc_snapshot s"
  let ?s1 = "after env ig ghmc_proposal s"
  have sp: "after env ig (ghmc_proposal @ [metropolis_accept]) s
              = after env ig [metropolis_accept] ?s1"
    by (rule after_append [OF ghmc_proposal_straight])
  have sr: "after env ig (ghmc_proposal @ ghmc_accept_reject) s
              = after env ig ghmc_accept_reject ?s1"
    by (rule after_append [OF ghmc_proposal_straight])
  have c: "perdof ?s0 ''xold'' = perdof ?s0 ''x''" "perdof ?s0 ''vold'' = perdof ?s0 ''v''"
    unfolding phase_steps(5) by (rule ghmc_store_old_copies [OF pv])+
  have k: "perdof ?s1 ''xold'' = perdof ?s0 ''x''" "perdof ?s1 ''vold'' = perdof ?s0 ''v''"
    unfolding phase_steps(7) c [symmetric]
    by (rule after_perdof_frame [OF proposal_keeps_old(1)],
        rule after_perdof_frame [OF proposal_keeps_old(2)])
  note g = ghmc_block [OF pv, of env ?s1]
  have rej: "perdof (after env ig ghmc_accept_reject ?s1) ''x'' = perdof ?s0 ''x''
             \<and> perdof (after env ig ghmc_accept_reject ?s1) ''v'' = (\<lambda>i. - perdof ?s0 ''v'' i)"
    if "globals (after env ig [metropolis_accept] ?s1) ''accept'' \<noteq> 1"
    using g(4) [OF that] unfolding k .
  have acc: "perdof (after env ig ghmc_accept_reject ?s1) ''x''
               = perdof (after env ig [metropolis_accept] ?s1) ''x''
             \<and> perdof (after env ig ghmc_accept_reject ?s1) ''v''
               = perdof (after env ig [metropolis_accept] ?s1) ''v''"
    if "globals (after env ig [metropolis_accept] ?s1) ''accept'' = 1"
    using g(5) [OF that] unfolding g(3) .
  show ?thesis
    unfolding sp sr
    using c ghmc_built(1) [OF b] g(2) rej acc by blast
qed


lemma first_randomization:
  assumes "perdof_vars ig = [(''sigma'', 0), (''vold'', 0), (''xold'', 0), (''x1'', 0)]"
  shows "perdof (after env ig (hmc_precompute @ velocity_randomization) s) ''v''
           = constrain_velocities env (perdof s ''x'')
               (\<lambda>i. sqrt (globals s ''b'') * perdof s ''v'' i
                    + sqrt (1 - globals s ''b'') * sqrt (globals s ''kT'' / mass env i)
                      * gaussian env (Suc (tick s)) i)"
    and "perdof (after env ig hmc_precompute s) ''sigma''
           = (\<lambda>i. sqrt (globals s ''kT'' / mass env i))"
  using assms
  by (simp_all add: hmc_precompute_def velocity_randomization_def run_simps)

lemma last_randomization:
  assumes "perdof_vars ig = [(''sigma'', 0), (''vold'', 0), (''xold'', 0), (''x1'', 0)]"
  shows "perdof (after env ig (velocity_randomization @ statistics) s) ''v''
           = constrain_velocities env (perdof s ''x'')
               (\<lambda>i. sqrt (globals s ''b'') * perdof s ''v'' i
                    + sqrt (1 - globals s ''b'') * perdof s ''sigma'' i * gaussian env (tick s) i)"
  using assms
  by (simp add: velocity_randomization_def statistics_def run_simps)

lemma ghmc_keeps:
  "\<forall>ins \<in> set (ghmc_proposal @ ghmc_accept_reject). global_target ins \<noteq> Some ''b''"
  "\<forall>ins \<in> set (velocity_randomization @ [ConstrainPositions, ConstrainVelocities]
                   @ ghmc_store_old @ ghmc_velocity_verlet @ new_energy).
      ''sigma'' \<notin> set (perdof_targets ins)"
  by (auto simp: program_sections)

lemma ghmc_remix:
  assumes b: "GHMCIntegrator kB temperature collision_rate timestep = Inr ig"
  shows "perdof (step_call env ig s) ''v''
       = constrain_velocities env (perdof (after env ig (ghmc_proposal @ ghmc_accept_reject) s) ''x'')
           (\<lambda>i. sqrt (globals s ''b'')
                  * perdof (after env ig (ghmc_proposal @ ghmc_accept_reject) s) ''v'' i
                + sqrt (1 - globals s ''b'') * sqrt (globals s ''kT'' / mass env i)
                  * gaussian env (tick (after env ig (ghmc_proposal @ ghmc_accept_reject) s)) i)"
proof -
  note pv = ghmc_built(2) [OF b]
  let ?s1 = "after env ig ghmc_proposal s"
  let ?sr = "after env ig (ghmc_proposal @ ghmc_accept_reject) s"
  have sr: "?sr = after env ig ghmc_accept_reject ?s1"
    by (rule after_append [OF ghmc_proposal_straight])
  have bal: "fst (exec env ig (ghmc_proposal @ ghmc_accept_reject) (0, s)) = 0"
    unfolding exec_append exec_straight [OF ghmc_proposal_straight]
    by (rule ghmc_block(1) [OF pv])
  have p: "program ig = (ghmc_proposal @ ghmc_accept_reject) @ velocity_randomization @ statistics"
    unfolding ghmc_built(1) [OF b] by simp
  have sc: "step_call env ig s = after env ig (velocity_randomization @ statistics) ?sr"
    unfolding step_call_def p by (rule after_append_balanced [OF bal])
  have gb: "globals ?sr ''b'' = globals s ''b''"
    by (rule after_globals_frame [OF ghmc_keeps(1)])
  have e: "ghmc_proposal = hmc_precompute @ (velocity_randomization
             @ [ConstrainPositions, ConstrainVelocities]
             @ ghmc_store_old @ ghmc_velocity_verlet @ new_energy)"
    by (simp add: ghmc_proposal_def ghmc_snapshot_def)
  have "perdof ?s1 ''sigma'' = perdof (after env ig hmc_precompute s) ''sigma''"
    unfolding e after_append [OF straight_sections(9)]
    by (rule after_perdof_frame [OF ghmc_keeps(2)])
  then have sg: "perdof ?sr ''sigma'' = (\<lambda>i. sqrt (globals s ''kT'' / mass env i))"
    unfolding sr ghmc_block(6) [OF pv] first_randomization(2) [OF pv] .
  show ?thesis
    unfolding sc last_randomization [OF pv] gb sg ..
qed

text \<open>
  C5: in a GHMC step the registers \<open>xold\<close> and \<open>vold\<close> hold the position and velocity of
  the state at the snapshot.  When the accept flag is not 1, the accept/reject block leaves
  the position equal to the snapshot position and the velocity equal to the negation of the
  snapshot velocity; when it is 1, the block leaves the proposed position and velocity
  unchanged.
\<close>

theorem ghmc_rollback:
  assumes "GHMCIntegrator kB temperature collision_rate timestep = Inr ig"
  shows "perdof (after env ig ghmc_snapshot s) ''xold'' = perdof (after env ig ghmc_snapshot s) ''x''
     \<and> perdof (after env ig ghmc_snapshot s) ''vold'' = perdof (after env ig ghmc_snapshot s) ''v''
     \<and> program ig = ghmc_proposal @ ghmc_accept_reject @ velocity_randomization @ statistics
     \<and> globals (after env ig (ghmc_proposal @ ghmc_accept_reject) s) ''accept''
         = globals (after env ig (ghmc_proposal @ [metropolis_accept]) s) ''accept''
     \<and> (globals (after env ig (ghmc_proposal @ [metropolis_accept]) s) ''accept'' \<noteq> 1 \<longrightarrow>
          perdof (after env ig (ghmc_proposal @ ghmc_accept_reject) s) ''x''
            = perdof (after env ig ghmc_snapshot s) ''x''
          \<and> perdof (after env ig (ghmc_proposal @ ghmc_accept_reject) s) ''v''
            = (\<lambda>i. - perdof (after env ig ghmc_snapshot s) ''v'' i))
     \<and> (globals (after env ig (ghmc_proposal @ [metropolis_accept]) s) ''accept'' = 1 \<longrightarrow>
          perdof (after env ig (ghmc_proposal @ ghmc_accept_reject) s) ''x''
            = perdof (after env ig (ghmc_proposal @ [metropolis_accept]) s) ''x''
          \<and> perdof (after env ig (ghmc_proposal @ ghmc_accept_reject) s) ''v''
            = perdof (after env ig (ghmc_proposal @ [metropolis_accept]) s) ''v'')"
  using assms by (rule ghmc_branch)

theorem ghmc_rollback_witness:
  "perdof (after (rigid_dimer 9 (\<lambda>t i. 1/2) (\<lambda>t i. if t = 16 then 1 - 2 * real i else 0))
             (projr (GHMCIntegrator 1 1 (ln 4) 1)) (ghmc_proposal @ ghmc_accept_reject)
             (initial_state (projr (GHMCIntegrator 1 1 (ln 4) 1)) (\<lambda>i. real i + 1/2) (\<lambda>i. 0)))
      ''x'' 0 = 1/2
   \<and> perdof (after (rigid_dimer 9 (\<lambda>t i. 1/2) (\<lambda>t i. if t = 16 then 1 - 2 * real i else 0))
             (projr (GHMCIntegrator 1 1 (ln 4) 1)) (ghmc_proposal @ ghmc_accept_reject)
             (initial_state (projr (GHMCIntegrator 1 1 (ln 4) 1)) (\<lambda>i. real i + 1/2) (\<lambda>i. 0)))
      ''v'' 0 = 0
   \<and> perdof (after (harmonic_oscillator 1 1 (\<lambda>t i. 0) (\<lambda>t i. 0))
             (projr (GHMCIntegrator 1 1 (ln 4) 1)) (ghmc_proposal @ ghmc_accept_reject)
             (initial_state (projr (GHMCIntegrator 1 1 (ln 4) 1)) (\<lambda>i. 1) (\<lambda>i. 0)))
      ''x'' 0 = 1/2
   \<and> perdof (after (harmonic_oscillator 1 1 (\<lambda>t i. 0) (\<lambda>t i. 0))
             (projr (GHMCIntegrator 1 1 (ln 4) 1)) (ghmc_proposal @ ghmc_accept_reject)
             (initial_state (projr (GHMCIntegrator 1 1 (ln 4) 1)) (\<lambda>i. 1) (\<lambda>i. 0)))
      ''v'' 0 = - (3/4)"
proof -
  let ?env = "rigid_dimer 9 (\<lambda>t i. 1/2) (\<lambda>t i. if t = 16 then 1 - 2 * real i else 0)"
  let ?ig = "projr (GHMCIntegrator 1 1 (ln 4) 1)"
  let ?s = "initial_state ?ig (\<lambda>i. real i + 1/2) (\<lambda>i. 0)"
  note d = dimer_trial [OF ghmc_example(1-4)]
  note t = ghmc_rollback [OF built_examples(3) [of 1 1 "ln 4" 1], of ?env ?s]
  from d(5) have rej: "globals (after ?env ?ig (ghmc_proposal @ [metropolis_accept]) ?s) ''accept'' \<noteq> 1"
    by simp
  from t rej have
    "perdof (after ?env ?ig (ghmc_proposal @ ghmc_accept_reject) ?s) ''x''
       = perdof (after ?env ?ig ghmc_snapshot ?s) ''x''"
    "perdof (after ?env ?ig (ghmc_proposal @ ghmc_accept_reject) ?s) ''v''
       = (\<lambda>i. - perdof (after ?env ?ig ghmc_snapshot ?s) ''v'' i)"
    by blast+
  then have 1: "perdof (after ?env ?ig (ghmc_proposal @ ghmc_accept_reject) ?s) ''x'' 0 = 1/2"
    "perdof (after ?env ?ig (ghmc_proposal @ ghmc_accept_reject) ?s) ''v'' 0 = 0"
    by (simp_all add: d(1,2))
  let ?osc = "harmonic_oscillator 1 1 (\<lambda>t i. 0) (\<lambda>t i. 0)"
  let ?so = "initial_state ?ig (\<lambda>i. 1) (\<lambda>i. 0)"
  note o = oscillator_accepted [OF ghmc_example(1-3)]
  note u = ghmc_rollback [OF built_examples(3) [of 1 1 "ln 4" 1], of ?osc ?so]
  from u o(1) have
    "perdof (after ?osc ?ig (ghmc_proposal @ ghmc_accept_reject) ?so) ''x''
       = perdof (after ?osc ?ig (ghmc_proposal @ [metropolis_accept]) ?so) ''x''"
    "perdof (after ?osc ?ig (ghmc_proposal @ ghmc_accept_reject) ?so) ''v''
       = perdof (after ?osc ?ig (ghmc_proposal @ [metropolis_accept]) ?so) ''v''"
    by blast+
  then have 2: "perdof (after ?osc ?ig (ghmc_proposal @ ghmc_accept_reject) ?so) ''x'' 0 = 1/2"
    "perdof (after ?osc ?ig (ghmc_proposal @ ghmc_accept_reject) ?so) ''v'' 0 = - (3/4)"
    by (simp_all add: o(2,3))
  from 1 2 show ?thesis by blast
qed

text \<open>
  C10 (as stated): at the end of a rejected GHMC trial the velocity equals
  \<open>sqrt b * (- v_pre) + sqrt (1 - b) * sigma * gaussian\<close>.  Two bonded particles, started at
  rest, noise \<open>+1\<close> and \<open>-1\<close> in the second randomization, \<open>b = 1/4\<close>: the trial is
  rejected, the remix of the first particle is \<open>sqrt 3 / 2\<close>, and the velocity constraint
  that follows the randomization leaves it with velocity 0.
\<close>

theorem constrained_remix_counterexample:
  "globals (after (rigid_dimer 9 (\<lambda>t i. 1/2) (\<lambda>t i. if t = 16 then 1 - 2 * real i else 0))
             (projr (GHMCIntegrator 1 1 (ln 4) 1)) (ghmc_proposal @ [metropolis_accept])
             (initial_state (projr (GHMCIntegrator 1 1 (ln 4) 1)) (\<lambda>i. real i + 1/2) (\<lambda>i. 0)))
      ''accept'' = 0
   \<and> perdof (step_call (rigid_dimer 9 (\<lambda>t i. 1/2) (\<lambda>t i. if t = 16 then 1 - 2 * real i else 0))
             (projr (GHMCIntegrator 1 1 (ln 4) 1))
             (initial_state (projr (GHMCIntegrator 1 1 (ln 4) 1)) (\<lambda>i. real i + 1/2) (\<lambda>i. 0)))
      ''v'' 0 = 0
   \<and> sqrt (globals (initial_state (projr (GHMCIntegrator 1 1 (ln 4) 1))
                     (\<lambda>i. real i + 1/2) (\<lambda>i. 0)) ''b'')
       * (- perdof (after (rigid_dimer 9 (\<lambda>t i. 1/2)
                             (\<lambda>t i. if t = 16 then 1 - 2 * real i else 0))
                      (projr (GHMCIntegrator 1 1 (ln 4) 1)) ghmc_snapshot
                      (initial_state (projr (GHMCIntegrator 1 1 (ln 4) 1))
                         (\<lambda>i. real i + 1/2) (\<lambda>i. 0))) ''v'' 0)
     + sqrt (1 - globals (initial_state (projr (GHMCIntegrator 1 1 (ln 4) 1))
                     (\<lambda>i. real i + 1/2) (\<lambda>i. 0)) ''b'')
       * sqrt (globals (initial_state (projr (GHMCIntegrator 1 1 (ln 4) 1))
                     (\<lambda>i. real i + 1/2) (\<lambda>i. 0)) ''kT''
               / mass (rigid_dimer 9 (\<lambda>t i. 1/2)
                             (\<lambda>t i. if t = 16 then 1 - 2 * real i else 0)) 0)
       * gaussian (rigid_dimer 9 (\<lambda>t i. 1/2) (\<lambda>t i. if t = 16 then 1 - 2 * real i else 0))
           (tick (after (rigid_dimer 9 (\<lambda>t i. 1/2)
                             (\<lambda>t i. if t = 16 then 1 - 2 * real i else 0))
                      (projr (GHMCIntegrator 1 1 (ln 4) 1)) (ghmc_proposal @ ghmc_accept_reject)
                      (initial_state (projr (GHMCIntegrator 1 1 (ln 4) 1))
                         (\<lambda>i. real i + 1/2) (\<lambda>i. 0)))) 0
     = sqrt 3 / 2"
proof -
  note d = dimer_trial [OF ghmc_example(1-4)]
  show ?thesis
    unfolding d ghmc_example(5,6)
    by (simp add: rigid_dimer_def real_sqrt_divide)
qed


text \<open>
  C10 (amended): a GHMC step call applies the partial velocity randomization twice, each
  time followed by the velocity constraint: before the Metropolized step, and after the
  accept/reject block.  The velocity at the end of a rejected trial is the velocity
  constraint applied to \<open>sqrt b * (- v_pre) + sqrt (1 - b) * sigma * gaussian\<close> with
  \<open>sigma = sqrt (kT / m)\<close> and the noise of the second randomization; in a system whose
  velocity constraint changes nothing it is this remix itself.
\<close>

theorem ghmc_velocity_randomizations:
  assumes b: "GHMCIntegrator kB temperature collision_rate timestep = Inr ig"
  shows "perdof (after env ig (hmc_precompute @ velocity_randomization) s) ''v''
           = constrain_velocities env (perdof s ''x'')
               (\<lambda>i. sqrt (globals s ''b'') * perdof s ''v'' i
                    + sqrt (1 - globals s ''b'') * sqrt (globals s ''kT'' / mass env i)
                      * gaussian env (Suc (tick s)) i)
     \<and> perdof (step_call env ig s) ''v''
         = constrain_velocities env
             (perdof (after env ig (ghmc_proposal @ ghmc_accept_reject) s) ''x'')
             (\<lambda>i. sqrt (globals s ''b'')
                    * perdof (after env ig (ghmc_proposal @ ghmc_accept_reject) s) ''v'' i
                  + sqrt (1 - globals s ''b'') * sqrt (globals s ''kT'' / mass env i)
                    * gaussian env (tick (after env ig (ghmc_proposal @ ghmc_accept_reject) s)) i)
     \<and> (globals (after env ig (ghmc_proposal @ [metropolis_accept]) s) ''accept'' \<noteq> 1 \<longrightarrow>
          perdof (step_call env ig s) ''v''
            = constrain_velocities env (perdof (after env ig ghmc_snapshot s) ''x'')
                (\<lambda>i. sqrt (globals s ''b'') * (- perdof (after env ig ghmc_snapshot s) ''v'' i)
                     + sqrt (1 - globals s ''b'') * sqrt (globals s ''kT'' / mass env i)
                       * gaussian env
                           (tick (after env ig (ghmc_proposal @ ghmc_accept_reject) s)) i)
          \<and> (constrain_velocities env = (\<lambda>x v. v) \<longrightarrow>
               perdof (step_call env ig s) ''v''
                 = (\<lambda>i. sqrt (globals s ''b'') * (- perdof (after env ig ghmc_snapshot s) ''v'' i)
                     + sqrt (1 - globals s ''b'') * sqrt (globals s ''kT'' / mass env i)
                       * gaussian env
                           (tick (after env ig (ghmc_proposal @ ghmc_accept_reject) s)) i)))"
proof -
  note r = ghmc_remix [OF b, of env s]
  note br = ghmc_branch [OF b, of env s]
  have 1: "perdof (after env ig (hmc_precompute @ velocity_randomization) s) ''v''
           = constrain_velocities env (perdof s ''x'')
               (\<lambda>i. sqrt (globals s ''b'') * perdof s ''v'' i
                    + sqrt (1 - globals s ''b'') * sqrt (globals s ''kT'' / mass env i)
                      * gaussian env (Suc (tick s)) i)"
    by (rule first_randomization(1) [OF ghmc_built(2) [OF b]])
  have 3: "perdof (step_call env ig s) ''v''
            = constrain_velocities env (perdof (after env ig ghmc_snapshot s) ''x'')
                (\<lambda>i. sqrt (globals s ''b'') * (- perdof (after env ig ghmc_snapshot s) ''v'' i)
                     + sqrt (1 - globals s ''b'') * sqrt (globals s ''kT'' / mass env i)
                       * gaussian env
                           (tick (after env ig (ghmc_proposal @ ghmc_accept_reject) s)) i)"
    if "globals (after env ig (ghmc_proposal @ [metropolis_accept]) s) ''accept'' \<noteq> 1"
  proof -
    from br that have
      "perdof (after env ig (ghmc_proposal @ ghmc_accept_reject) s) ''x''
            = perdof (after env ig ghmc_snapshot s) ''x''"
      "perdof (after env ig (ghmc_proposal @ ghmc_accept_reject) s) ''v''
            = (\<lambda>i. - perdof (after env ig ghmc_snapshot s) ''v'' i)"
      by blast+
    then show ?thesis unfolding r by simp
  qed
  have 4: "perdof (step_call env ig s) ''v''
                 = (\<lambda>i. sqrt (globals s ''b'') * (- perdof (after env ig ghmc_snapshot s) ''v'' i)
                     + sqrt (1 - globals s ''b'') * sqrt (globals s ''kT'' / mass env i)
                       * gaussian env
                           (tick (after env ig (ghmc_proposal @ ghmc_accept_reject) s)) i)"
    if "globals (after env ig (ghmc_proposal @ [metropolis_accept]) s) ''accept'' \<noteq> 1"
      and "constrain_velocities env = (\<lambda>x v. v)"
    unfolding 3 [OF that(1)] that(2) ..
  from 1 r 3 4 show ?thesis by blast
qed


theorem ghmc_velocity_randomizations_witness:
  "perdof (step_call (rigid_dimer 9 (\<lambda>t i. 1/2) (\<lambda>t i. if t = 16 then 1 - 2 * real i else 0))
             (projr (GHMCIntegrator 1 1 (ln 4) 1))
             (initial_state (projr (GHMCIntegrator 1 1 (ln 4) 1)) (\<lambda>i. real i + 1/2) (\<lambda>i. 0)))
      ''v'' 0 = 0
   \<and> perdof (step_call (harmonic_oscillator 9 1 (\<lambda>t i. 1/2) (\<lambda>t i. if t = 16 then 1 else 0))
             (projr (GHMCIntegrator 1 1 (ln 4) 1))
             (initial_state (projr (GHMCIntegrator 1 1 (ln 4) 1)) (\<lambda>i. 1) (\<lambda>i. 0)))
      ''v'' 0 = sqrt 3 / 2"
proof -
  let ?ig = "projr (GHMCIntegrator 1 1 (ln 4) 1)"
  let ?dimer = "rigid_dimer 9 (\<lambda>t i. 1/2) (\<lambda>t i. if t = 16 then 1 - 2 * real i else 0)"
  let ?sd = "initial_state ?ig (\<lambda>i. real i + 1/2) (\<lambda>i. 0)"
  let ?osc = "harmonic_oscillator 9 1 (\<lambda>t i. 1/2) (\<lambda>t i. if t = 16 then 1 else 0)"
  let ?so = "initial_state ?ig (\<lambda>i. 1) (\<lambda>i. 0)"
  note d = dimer_trial [OF ghmc_example(1-4)]
  note t = ghmc_velocity_randomizations [OF built_examples(3) [of 1 1 "ln 4" 1], of ?dimer ?sd,
      THEN conjunct2, THEN conjunct2, THEN mp, THEN conjunct1]
  from d(5) have rej: "globals (after ?dimer ?ig (ghmc_proposal @ [metropolis_accept]) ?sd)
      ''accept'' \<noteq> 1"
    by simp
  have 1: "perdof (step_call ?dimer ?ig ?sd) ''v'' 0 = 0"
    unfolding t [OF rej] d(8) d(10) ghmc_example(5,6)
    by (simp add: rigid_dimer_def)
  note o = oscillator_trial [OF ghmc_example(1-3)]
  note u = ghmc_velocity_randomizations [OF built_examples(3) [of 1 1 "ln 4" 1], of ?osc ?so,
      THEN conjunct2, THEN conjunct2, THEN mp, THEN conjunct2, THEN mp]
  from o(2) have rej2: "globals (after ?osc ?ig (ghmc_proposal @ [metropolis_accept]) ?so)
      ''accept'' \<noteq> 1"
    by simp
  have free: "constrain_velocities ?osc = (\<lambda>x v. v)"
    by (simp add: harmonic_oscillator_def)
  have 2: "perdof (step_call ?osc ?ig ?so) ''v'' 0 = sqrt 3 / 2"
    unfolding u [OF rej2 free] o(1) o(3) ghmc_example(5,6)
    by (simp add: harmonic_oscillator_def real_sqrt_divide)
  from 1 2 show ?thesis ..
qed

end
